theory Spec2Isabelle
  imports Complex_Main "HOL-Library.Log_Nat"
begin

section \<open>JavaScript numbers: binary64 arithmetic\<close>

text \<open>
  The pixel quantities of \<open>updatePosition\<close> are JavaScript numbers, that is IEEE 754
  binary64 values. A finite double is represented by the rational it denotes; the two
  zeros are identified (nothing in \<open>updatePosition\<close> tells them apart). Every arithmetic
  operation computes the exact result and rounds it to the nearest double, ties to the
  even significand, with gradual underflow (no spacing finer than \<open>2 powi (- 1074)\<close>) and
  overflow to an infinity once the rounded magnitude reaches \<open>2 powi 1024\<close>.
\<close>

datatype double = Finite rat | PlusInfinity | MinusInfinity | NotANumber

text \<open>
  The exponent \<open>e\<close> with \<open>2 powi e \<le> a < 2 powi (e + 1)\<close>, for a positive rational \<open>a\<close>,
  found from the bit lengths of its numerator and denominator.
\<close>

definition floor_log2 :: "rat \<Rightarrow> int" where
  "floor_log2 a =
     (let (p, q) = quotient_of a; k = bitlen p - bitlen q
      in if 2 powi k \<le> a then k else k - 1)"

definition round_half_even :: "rat \<Rightarrow> int" where
  "round_half_even m =
     (let f = \<lfloor>m\<rfloor>; d = m - of_int f
      in if d < 1 / 2 then f else if d > 1 / 2 then f + 1 else if even f then f else f + 1)"

text \<open>
  Rounding to binary64: the significand has 53 bits, so the spacing of the doubles around
  \<open>a\<close> is \<open>2 powi q\<close> with \<open>q = e - 52\<close>, and never finer than \<open>2 powi (- 1074)\<close>.
\<close>

definition round64 :: "rat \<Rightarrow> double" where
  "round64 x =
     (if x = 0 then Finite 0
      else let a = \<bar>x\<bar>;
               e = floor_log2 a;
               q = max (e - 52) (- 1074);
               n = round_half_even (a / 2 powi q);
               r = of_int n * 2 powi q
           in if r \<ge> 2 powi 1024 then (if x < 0 then MinusInfinity else PlusInfinity)
              else Finite (if x < 0 then - r else r))"

fun js_add :: "double \<Rightarrow> double \<Rightarrow> double" where
  "js_add (Finite a) (Finite b) = round64 (a + b)"
| "js_add NotANumber _ = NotANumber"
| "js_add _ NotANumber = NotANumber"
| "js_add PlusInfinity MinusInfinity = NotANumber"
| "js_add MinusInfinity PlusInfinity = NotANumber"
| "js_add PlusInfinity _ = PlusInfinity"
| "js_add _ PlusInfinity = PlusInfinity"
| "js_add MinusInfinity _ = MinusInfinity"
| "js_add _ MinusInfinity = MinusInfinity"

fun js_sub :: "double \<Rightarrow> double \<Rightarrow> double" where
  "js_sub (Finite a) (Finite b) = round64 (a - b)"
| "js_sub NotANumber _ = NotANumber"
| "js_sub _ NotANumber = NotANumber"
| "js_sub PlusInfinity PlusInfinity = NotANumber"
| "js_sub MinusInfinity MinusInfinity = NotANumber"
| "js_sub PlusInfinity _ = PlusInfinity"
| "js_sub _ PlusInfinity = MinusInfinity"
| "js_sub MinusInfinity _ = MinusInfinity"
| "js_sub _ MinusInfinity = PlusInfinity"

text \<open>Division by the literal \<open>2\<close>, the only division in \<open>updatePosition\<close>.\<close>

fun js_div_by_2 :: "double \<Rightarrow> double" where
  "js_div_by_2 (Finite a) = round64 (a / 2)"
| "js_div_by_2 d = d"

text \<open>The comparisons \<open><\<close>, \<open>>\<close> and \<open><=\<close>: false whenever an operand is \<open>NaN\<close>.\<close>

fun js_less :: "double \<Rightarrow> double \<Rightarrow> bool" where
  "js_less (Finite a) (Finite b) = (a < b)"
| "js_less NotANumber _ = False"
| "js_less _ NotANumber = False"
| "js_less _ MinusInfinity = False"
| "js_less PlusInfinity _ = False"
| "js_less MinusInfinity _ = True"
| "js_less _ PlusInfinity = True"

definition js_greater :: "double \<Rightarrow> double \<Rightarrow> bool" where
  "js_greater a b = js_less b a"


fun is_finite :: "double \<Rightarrow> bool" where
  "is_finite (Finite a) = True"
| "is_finite _ = False"


section \<open>Overlay placement: \<open>Dropdown.updatePosition\<close>\<close>

text \<open>
  Both dropdown variants (\<open>src/ui/components/Dropdown.ts\<close> and the keyboard-aware
  \<open>src/unnamed/part_005\<close>) carry the same \<open>updatePosition\<close>. It reads two rectangles
  from \<open>getBoundingClientRect\<close> and the window's inner size, and writes three style values.
\<close>

record dom_rect =
  rect_x :: double
  rect_y :: double
  rect_width :: double
  rect_height :: double

text \<open>
  The derived edges of a \<open>DOMRect\<close>. \<open>getBoundingClientRect\<close> yields rectangles of finite
  coordinates and non-negative extent, for which \<open>left = x\<close>, \<open>top = y\<close> and
  \<open>bottom = y + height\<close>, the sum being a binary64 addition.
\<close>

definition rect_left :: "dom_rect \<Rightarrow> double" where
  "rect_left r = rect_x r"

definition rect_top :: "dom_rect \<Rightarrow> double" where
  "rect_top r = rect_y r"

definition rect_bottom :: "dom_rect \<Rightarrow> double" where
  "rect_bottom r = js_add (rect_y r) (rect_height r)"

definition finite_rect :: "dom_rect \<Rightarrow> bool" where
  "finite_rect r =
     (is_finite (rect_x r) \<and> is_finite (rect_y r)
      \<and> is_finite (rect_width r) \<and> is_finite (rect_height r))"

record viewport =
  innerWidth :: double
  innerHeight :: double

record placement =
  style_top :: double
  style_left :: double
  style_maxWidth :: double

definition updatePosition :: "dom_rect \<Rightarrow> dom_rect \<Rightarrow> viewport \<Rightarrow> placement" where
  "updatePosition triggerRect contentRect window =
     (let viewportWidth = innerWidth window;
          viewportHeight = innerHeight window;
          left0 = js_add (rect_left triggerRect)
                    (js_div_by_2 (js_sub (rect_width triggerRect) (rect_width contentRect)));
          top0 = js_add (rect_bottom triggerRect) (Finite 8);
          left1 = (if js_greater (js_add left0 (rect_width contentRect)) viewportWidth
                   then js_sub (js_sub viewportWidth (rect_width contentRect)) (Finite 8)
                   else left0);
          left2 = (if js_less left1 (Finite 8) then Finite 8 else left1);
          top1 = (if js_greater (js_add top0 (rect_height contentRect)) viewportHeight
                  then (let topPosition =
                              js_sub (js_sub (rect_top triggerRect) (rect_height contentRect))
                                (Finite 8)
                        in if js_greater topPosition (Finite 0) then topPosition
                           else js_sub (js_sub viewportHeight (rect_height contentRect))
                                  (Finite 8))
                  else top0)
      in \<lparr>style_top = top1, style_left = left2,
          style_maxWidth = js_sub viewportWidth (Finite 16)\<rparr>)"

text \<open>
  The placement rules as the specification words them, with the margin subtracted from the
  viewport edge in both overflow tests. They are compared with \<open>updatePosition\<close> below.
\<close>

definition spec_place_left :: "double \<Rightarrow> dom_rect \<Rightarrow> dom_rect \<Rightarrow> viewport \<Rightarrow> double" where
  "spec_place_left margin anchor content vp =
     (let left0 = js_add (rect_x anchor)
                    (js_div_by_2 (js_sub (rect_width anchor) (rect_width content)));
          left1 = (if js_greater (js_add left0 (rect_width content))
                        (js_sub (innerWidth vp) margin)
                   then js_sub (js_sub (innerWidth vp) (rect_width content)) margin
                   else left0)
      in if js_less left1 margin then margin else left1)"

definition spec_place_top :: "double \<Rightarrow> dom_rect \<Rightarrow> dom_rect \<Rightarrow> viewport \<Rightarrow> double" where
  "spec_place_top margin anchor content vp =
     (let top0 = js_add (rect_bottom anchor) margin;
          aboveTop = js_sub (js_sub (rect_top anchor) (rect_height content)) margin
      in if js_greater (js_add top0 (rect_height content)) (js_sub (innerHeight vp) margin)
         then (if js_greater aboveTop (Finite 0) then aboveTop
               else js_sub (js_sub (innerHeight vp) (rect_height content)) margin)
         else top0)"

section \<open>JavaScript values shared by the widget models\<close>

text \<open>
  A method either returns or throws; the component state it has reached persists in both
  cases, so every fallible method yields a completion together with the state.
\<close>

datatype error = TypeError

datatype 'a completion = Returned 'a | Threw error

text \<open>
  The numbers that reach \<open>selectTab\<close>: integers, and \<open>NaN\<close> (the value of \<open>n % 0\<close>).
  Every comparison with \<open>NaN\<close> is false; \<open>%\<close> takes the sign of the dividend.
\<close>

datatype number = Num int | NaN

fun num_less :: "number \<Rightarrow> number \<Rightarrow> bool" where
  "num_less (Num a) (Num b) = (a < b)"
| "num_less _ _ = False"

fun num_greater_eq :: "number \<Rightarrow> number \<Rightarrow> bool" where
  "num_greater_eq (Num a) (Num b) = (a \<ge> b)"
| "num_greater_eq _ _ = False"

definition js_rem :: "int \<Rightarrow> int \<Rightarrow> number" where
  "js_rem a b = (if b = 0 then NaN else Num (sgn a * (\<bar>a\<bar> mod \<bar>b\<bar>)))"

text \<open>\<open>Array.prototype.indexOf\<close>: the first index holding the element, or \<open>-1\<close>.\<close>

fun indexOfFrom :: "int \<Rightarrow> 'a list \<Rightarrow> 'a \<Rightarrow> int" where
  "indexOfFrom k [] x = -1"
| "indexOfFrom k (y # ys) x = (if y = x then k else indexOfFrom (k + 1) ys x)"

definition indexOf :: "'a list \<Rightarrow> 'a \<Rightarrow> int" where
  "indexOf xs x = indexOfFrom 0 xs x"

text \<open>Indexing an array: \<open>undefined\<close> (here \<open>None\<close>) outside the array and at \<open>NaN\<close>.\<close>

fun array_get :: "'a list \<Rightarrow> number \<Rightarrow> 'a option" where
  "array_get xs (Num i) = (if 0 \<le> i \<and> i < int (length xs) then Some (xs ! nat i) else None)"
| "array_get xs NaN = None"

text \<open>DOM elements are identified by reference.\<close>

type_synonym ref = nat

section \<open>Dropdown keyboard handling (\<open>src/unnamed/part_005\<close>)\<close>

text \<open>
  The state the keyboard and click handlers read and write: whether the content carries
  the class \<open>hidden\<close>, which element is \<open>document.activeElement\<close>, and the menu items
  found by \<open>querySelectorAll('[role="menuitem"]')\<close> in document order.

  \<open>HTMLElement.focus()\<close> moves the focus only to a focusable element and does nothing
  otherwise. The trigger is the \<open><div class="ac-dropdown-trigger">\<close> of the shadow tree;
  \<open>initializeElements\<close> gives it three aria attributes and no \<open>tabindex\<close>, so it is not
  focusable. The content element gets \<open>tabindex="-1"\<close>. Whether a menu item is focusable
  depends on the slotted markup and is part of the state. Every \<open>focus()\<close> call is logged
  in \<open>focusCalls\<close>, whether or not it moves the focus. Focus changes that the browser
  makes on its own are outside this model.
\<close>

text \<open>
  The variant in \<open>src/ui/components/Dropdown.ts\<close> has no keyboard handlers and its
  \<open>hideMenu\<close> only adds the class; the model below is the keyboard-aware variant.
\<close>

datatype element = TriggerEl | ContentEl | MenuItem ref | OtherEl

datatype key = Enter | Space | ArrowDown | ArrowUp | Escape | Tab | OtherKey

record dropdown =
  hidden :: bool
  activeElement :: element
  menuItems :: "ref list"
  itemFocusable :: "ref \<Rightarrow> bool"
  focusCalls :: "element list"

fun focusable :: "dropdown \<Rightarrow> element \<Rightarrow> bool" where
  "focusable d TriggerEl = False"
| "focusable d ContentEl = True"
| "focusable d (MenuItem i) = itemFocusable d i"
| "focusable d OtherEl = False"

definition focus :: "element \<Rightarrow> dropdown \<Rightarrow> dropdown" where
  "focus e d =
     (let d1 = d\<lparr>focusCalls := focusCalls d @ [e]\<rparr>
      in if focusable d e then d1\<lparr>activeElement := e\<rparr> else d1)"

definition hideMenu :: "dropdown \<Rightarrow> dropdown" where
  "hideMenu d = focus TriggerEl (d\<lparr>hidden := True\<rparr>)"

text \<open>\<open>(items[i] as HTMLElement).focus()\<close>: a \<open>TypeError\<close> when \<open>items[i]\<close> is undefined.\<close>

definition focusItemAt :: "element list \<Rightarrow> int \<Rightarrow> dropdown \<Rightarrow> unit completion \<times> dropdown" where
  "focusItemAt items i d =
     (case array_get items (Num i) of
        None \<Rightarrow> (Threw TypeError, d)
      | Some e \<Rightarrow> (Returned (), focus e d))"

definition handleContentKeydown :: "key \<Rightarrow> dropdown \<Rightarrow> unit completion \<times> dropdown" where
  "handleContentKeydown k d =
     (let items = map MenuItem (menuItems d);
          currentIndex = indexOf items (activeElement d)
      in case k of
           ArrowDown \<Rightarrow>
             (if currentIndex < int (length items) - 1
              then focusItemAt items (currentIndex + 1) d else (Returned (), d))
         | ArrowUp \<Rightarrow>
             (if currentIndex > 0
              then focusItemAt items (currentIndex - 1) d else (Returned (), d))
         | Escape \<Rightarrow> (Returned (), focus TriggerEl (hideMenu d))
         | Tab \<Rightarrow> (Returned (), hideMenu d)
         | _ \<Rightarrow> (Returned (), d))"

text \<open>
  The document-level click listener; its argument says whether the event's composed path
  includes the dropdown element.
\<close>

definition handleDocumentClick :: "bool \<Rightarrow> dropdown \<Rightarrow> dropdown" where
  "handleDocumentClick pathIncludesThis d =
     (if \<not> pathIncludesThis then hideMenu d else d)"

section \<open>Tab panels, tab triggers and the tab group\<close>

text \<open>
  \<open>src/ui/components/Tab.ts\<close>, \<open>TabTrigger.ts\<close> and \<open>TabGroup.ts\<close>. The state holds the part of
  the document the group reaches (the \<open>ac-tab\<close> and \<open>ac-tab-trigger\<close> descendants in
  document order, and the \<open>active\<close> and \<open>selected\<close> attributes) and the fields of the group
  (\<open>tabs\<close>, \<open>_activeTab\<close>, and whether \<open>setupTabListeners\<close> has registered the listeners).

  \<open>querySelectorAll\<close> returns elements whether or not they have been upgraded to their
  custom element class. \<open>setAttribute\<close> and \<open>removeAttribute\<close> work on every element; the
  methods of \<open>Tab\<close> and \<open>TabTrigger\<close> exist only on an upgraded element, and calling one on
  an element that is not upgraded throws a \<open>TypeError\<close>. \<open>upgraded\<close> records which elements
  are upgraded.
\<close>

record tab_group =
  panelEls :: "ref list"
  triggerEls :: "ref list"
  upgraded :: "ref \<Rightarrow> bool"
  activeAttr :: "ref \<Rightarrow> bool"
  selectedAttr :: "ref \<Rightarrow> bool"
  tabs :: "ref list"
  activeTab :: "ref option"
  listening :: bool

subsection \<open>\<open>TabTrigger\<close>\<close>

definition select :: "ref \<Rightarrow> tab_group \<Rightarrow> tab_group" where
  "select t g = g\<lparr>selectedAttr := (selectedAttr g)(t := True)\<rparr>"

definition deselect :: "ref \<Rightarrow> tab_group \<Rightarrow> tab_group" where
  "deselect t g = g\<lparr>selectedAttr := (selectedAttr g)(t := False)\<rparr>"

subsection \<open>\<open>Tab\<close>\<close>

definition isActive :: "ref \<Rightarrow> tab_group \<Rightarrow> bool" where
  "isActive t g = activeAttr g t"

definition setActiveAttribute :: "ref \<Rightarrow> tab_group \<Rightarrow> tab_group" where
  "setActiveAttribute t g = g\<lparr>activeAttr := (activeAttr g)(t := True)\<rparr>"

definition removeActiveAttribute :: "ref \<Rightarrow> tab_group \<Rightarrow> tab_group" where
  "removeActiveAttribute t g = g\<lparr>activeAttr := (activeAttr g)(t := False)\<rparr>"

definition deactivate :: "ref \<Rightarrow> tab_group \<Rightarrow> tab_group" where
  "deactivate t g = (if isActive t g then removeActiveAttribute t g else g)"

subsection \<open>The group's \<open>tab-activated\<close> listener\<close>

text \<open>
  \<open>triggers.forEach((trigger, i) => ...)\<close>, the index counted from \<open>i\<close>. The loop stops with
  a \<open>TypeError\<close> at the first trigger that is not upgraded.
\<close>

fun updateTabStatesFrom ::
  "int \<Rightarrow> int \<Rightarrow> ref list \<Rightarrow> tab_group \<Rightarrow> unit completion \<times> tab_group" where
  "updateTabStatesFrom i activeIndex [] g = (Returned (), g)"
| "updateTabStatesFrom i activeIndex (trigger # rest) g =
     (if \<not> upgraded g trigger then (Threw TypeError, g)
      else updateTabStatesFrom (i + 1) activeIndex rest
             (if i = activeIndex then select trigger g else deselect trigger g))"

definition updateTabStates :: "int \<Rightarrow> tab_group \<Rightarrow> unit completion \<times> tab_group" where
  "updateTabStates activeIndex g = updateTabStatesFrom 0 activeIndex (triggerEls g) g"

text \<open>
  The event's \<open>detail.tab\<close> is the \<open>Tab\<close> that dispatched it, and \<open>_activeTab\<close> only ever holds
  a \<open>Tab\<close> whose method has run, so \<open>deactivate\<close> exists on it.
\<close>

definition tabActivatedListener :: "ref \<Rightarrow> tab_group \<Rightarrow> unit completion \<times> tab_group" where
  "tabActivatedListener newTab g =
     (let g1 = (case activeTab g of
                  Some cur \<Rightarrow> if cur \<noteq> newTab then deactivate cur g else g
                | None \<Rightarrow> g);
          g2 = g1\<lparr>activeTab := Some newTab\<rparr>
      in updateTabStates (indexOf (tabs g2) newTab) g2)"

text \<open>
  \<open>Tab.notifyActivated\<close> dispatches a bubbling \<open>tab-activated\<close> event; it reaches the group's
  listener once the group has registered it. An exception thrown inside a listener is
  reported by the event dispatch and not propagated, so only the state remains.
\<close>

definition notifyActivated :: "ref \<Rightarrow> tab_group \<Rightarrow> tab_group" where
  "notifyActivated t g = (if listening g then snd (tabActivatedListener t g) else g)"

definition activate :: "ref \<Rightarrow> tab_group \<Rightarrow> tab_group" where
  "activate t g =
     (if \<not> isActive t g then notifyActivated t (setActiveAttribute t g) else g)"

subsection \<open>\<open>TabGroup\<close>\<close>

text \<open>
  \<open>activateTab\<close> receives \<open>this.tabs[index]\<close>, which is \<open>undefined\<close> (\<open>None\<close>) when the index is
  not an index of the array. Its statements run in order until one throws:
  \<open>this._activeTab?.deactivate()\<close>, the loop removing \<open>active\<close> from every tab,
  \<open>tab.setAttribute("active", "")\<close> (a \<open>TypeError\<close> on \<open>undefined\<close>), \<open>tab.activate()\<close> (a
  \<open>TypeError\<close> when the element is not upgraded), and the assignment to \<open>_activeTab\<close>.
  The loop over \<open>this.tabList.querySelectorAll("button")\<close> touches only buttons of the
  group's own shadow tree and no field or attribute of this state.
\<close>

definition activateTab :: "ref option \<Rightarrow> tab_group \<Rightarrow> unit completion \<times> tab_group" where
  "activateTab tab g =
     (case (case activeTab g of
              Some cur \<Rightarrow> if upgraded g cur then (Returned (), deactivate cur g)
                          else (Threw TypeError, g)
            | None \<Rightarrow> (Returned (), g)) of
        (Threw e, g1) \<Rightarrow> (Threw e, g1)
      | (Returned _, g1) \<Rightarrow>
          (let g2 = fold removeActiveAttribute (tabs g1) g1
           in case tab of
                None \<Rightarrow> (Threw TypeError, g2)
              | Some t \<Rightarrow>
                  (let g3 = setActiveAttribute t g2
                   in if \<not> upgraded g3 t then (Threw TypeError, g3)
                      else (let g4 = activate t g3
                            in (Returned (), g4\<lparr>activeTab := Some t\<rparr>)))))"

definition selectTab :: "number \<Rightarrow> tab_group \<Rightarrow> bool completion \<times> tab_group" where
  "selectTab index g =
     (if num_less index (Num 0) \<or> num_greater_eq index (Num (int (length (tabs g))))
      then (Returned False, g)
      else (case activateTab (array_get (tabs g) index) g of
              (Threw e, g') \<Rightarrow> (Threw e, g')
            | (Returned _, g') \<Rightarrow> (Returned True, g')))"

definition activeTabIndex :: "tab_group \<Rightarrow> int" where
  "activeTabIndex g = (case activeTab g of Some t \<Rightarrow> indexOf (tabs g) t | None \<Rightarrow> -1)"

definition tabCount :: "tab_group \<Rightarrow> int" where
  "tabCount g = int (length (tabs g))"

definition nextTab :: "tab_group \<Rightarrow> bool completion \<times> tab_group" where
  "nextTab g =
     (let currentIndex = activeTabIndex g
      in selectTab (js_rem (currentIndex + 1) (tabCount g)) g)"

definition previousTab :: "tab_group \<Rightarrow> bool completion \<times> tab_group" where
  "previousTab g =
     (let currentIndex = activeTabIndex g;
          prevIndex = (if currentIndex - 1 < 0 then tabCount g - 1 else currentIndex - 1)
      in selectTab (Num prevIndex) g)"

text \<open>
  The constructor attaches the shadow root, so the early return of \<open>initializeTabs\<close> on a
  missing shadow root (and the throw of \<open>render\<close>) is never taken. The \<open>aria-controls\<close> and
  \<open>id\<close> attributes that \<open>initializeTabs\<close> writes on the triggers are not read by any method
  and are left out of the state.
\<close>

definition initializeTabs :: "tab_group \<Rightarrow> unit completion \<times> tab_group" where
  "initializeTabs g =
     (let g1 = g\<lparr>tabs := panelEls g\<rparr>
      in if length (tabs g1) > 0
         then (case selectTab (Num 0) g1 of
                 (Threw e, g') \<Rightarrow> (Threw e, g')
               | (Returned _, g') \<Rightarrow> (Returned (), g'))
         else (Returned (), g1))"

definition setupTabListeners :: "tab_group \<Rightarrow> tab_group" where
  "setupTabListeners g = g\<lparr>listening := True\<rparr>"

text \<open>When \<open>initializeTabs\<close> throws, \<open>setupTabListeners\<close> is not reached.\<close>

definition connectedCallback :: "tab_group \<Rightarrow> unit completion \<times> tab_group" where
  "connectedCallback g =
     (case initializeTabs g of
        (Threw e, g') \<Rightarrow> (Threw e, g')
      | (Returned _, g') \<Rightarrow> (Returned (), setupTabListeners g'))"

text \<open>
  The group's \<open>tab-trigger-click\<close> listener. An exception thrown inside a listener is
  reported by the event dispatch and not propagated, so only the state remains.
\<close>

definition tabTriggerClickListener :: "ref \<Rightarrow> tab_group \<Rightarrow> tab_group" where
  "tabTriggerClickListener trigger g =
     (let index = indexOf (triggerEls g) trigger
      in if index \<ge> 0 then snd (selectTab (Num index) g) else g)"

text \<open>The state of a group right after its constructor and field initialisers have run.\<close>

definition constructed :: "tab_group \<Rightarrow> bool" where
  "constructed g = (tabs g = [] \<and> activeTab g = None \<and> \<not> listening g)"

text \<open>
  What a page can do to a connected group: call its navigation methods, click a trigger,
  or call the public \<open>activate\<close> and \<open>deactivate\<close> of one of its panels. A trigger
  dispatches its click event, and a panel has its methods, only once it is upgraded; before
  that the click does nothing and the call throws, leaving the state as it was.
\<close>

datatype tab_op =
    SelectTab number
  | NextTab
  | PreviousTab
  | TriggerClick ref
  | TabActivate ref
  | TabDeactivate ref

fun tab_step :: "tab_op \<Rightarrow> tab_group \<Rightarrow> tab_group" where
  "tab_step (SelectTab i) g = snd (selectTab i g)"
| "tab_step NextTab g = snd (nextTab g)"
| "tab_step PreviousTab g = snd (previousTab g)"
| "tab_step (TriggerClick t) g =
     (if listening g \<and> upgraded g t then tabTriggerClickListener t g else g)"
| "tab_step (TabActivate t) g = (if upgraded g t then activate t g else g)"
| "tab_step (TabDeactivate t) g = (if upgraded g t then deactivate t g else g)"

definition tab_run :: "tab_op list \<Rightarrow> tab_group \<Rightarrow> tab_group" where
  "tab_run ops g = fold tab_step ops g"

section \<open>Accordions inside an accordion group\<close>

text \<open>
  The state of one \<open>ac-accordion-group\<close> and the accordions inside it: the \<open>isExpanded\<close>
  field of every accordion, the group's \<open>currentOpenAccordion\<close>, and a log of what the
  widgets tell each other (every \<open>accordion-expanded\<close> event dispatched and every
  \<open>collapse()\<close> call an accordion receives).
\<close>

text \<open>
  The inline height and the \<open>aria-expanded\<close> and \<open>aria-hidden\<close> attributes that the accordions
  write follow \<open>isExpanded\<close> and are read by no method; they are left out of the state.
\<close>

datatype notification = ExpandedEvent ref | CollapseCall ref

record accordion_group =
  isExpanded :: "ref \<Rightarrow> bool"
  currentOpenAccordion :: "ref option"
  notifications :: "notification list"

definition initial_group :: accordion_group where
  "initial_group = \<lparr>isExpanded = (\<lambda>_. False), currentOpenAccordion = None, notifications = []\<rparr>"

subsection \<open>\<open>AccordionGroup.setupAccordionListeners\<close>\<close>

text \<open>
  The listener calls \<open>collapse()\<close> on the recorded accordion. Which code that runs depends
  on the class of the accordion, so the method is a parameter. When the call throws, the
  assignment after it is not reached.
\<close>

definition accordionExpandedListener ::
  "(ref \<Rightarrow> accordion_group \<Rightarrow> unit completion \<times> accordion_group) \<Rightarrow>
   ref \<Rightarrow> accordion_group \<Rightarrow> unit completion \<times> accordion_group" where
  "accordionExpandedListener collapseMethod newAccordion s =
     (case (case currentOpenAccordion s of
              Some cur \<Rightarrow> if cur \<noteq> newAccordion then collapseMethod cur s else (Returned (), s)
            | None \<Rightarrow> (Returned (), s)) of
        (Threw e, s1) \<Rightarrow> (Threw e, s1)
      | (Returned _, s1) \<Rightarrow> (Returned (), s1\<lparr>currentOpenAccordion := Some newAccordion\<rparr>))"

text \<open>
  \<open>dispatchEvent\<close> runs the group's listener synchronously; an exception thrown by the
  listener is reported and not propagated to the dispatching accordion.
\<close>

definition dispatchExpanded ::
  "(ref \<Rightarrow> accordion_group \<Rightarrow> unit completion \<times> accordion_group) \<Rightarrow>
   ref \<Rightarrow> accordion_group \<Rightarrow> accordion_group" where
  "dispatchExpanded listener a s =
     snd (listener a (s\<lparr>notifications := notifications s @ [ExpandedEvent a]\<rparr>))"

subsection \<open>The accordion of \<open>src/unnamed/part_004\<close>: \<open>toggleAccordion\<close> and \<open>collapse\<close>\<close>

function toggleAccordion :: "ref \<Rightarrow> accordion_group \<Rightarrow> accordion_group"
  and notifyExpanded :: "ref \<Rightarrow> accordion_group \<Rightarrow> accordion_group"
  and collapse :: "ref \<Rightarrow> accordion_group \<Rightarrow> accordion_group"
where
  "toggleAccordion a s =
     (let s1 = s\<lparr>isExpanded := (isExpanded s)(a := \<not> isExpanded s a)\<rparr>
      in if isExpanded s1 a then notifyExpanded a s1 else s1)"
| "notifyExpanded a s =
     dispatchExpanded (accordionExpandedListener (\<lambda>c s'. (Returned (), collapse c s'))) a s"
| "collapse a s =
     (let s0 = s\<lparr>notifications := notifications s @ [CollapseCall a]\<rparr>
      in if isExpanded s0 a then toggleAccordion a s0 else s0)"
  by pat_completeness auto
termination
  by (relation "measure (\<lambda>x. case x of
         Inl (a, s) \<Rightarrow> (if isExpanded s a then 0 else 3)
       | Inr (Inl _) \<Rightarrow> 2
       | Inr (Inr _) \<Rightarrow> 1)") auto

definition handleTriggerClick :: "ref \<Rightarrow> accordion_group \<Rightarrow> accordion_group" where
  "handleTriggerClick a s = toggleAccordion a s"

datatype click_op = Click ref | Collapse ref

fun click_step :: "click_op \<Rightarrow> accordion_group \<Rightarrow> accordion_group" where
  "click_step (Click a) s = handleTriggerClick a s"
| "click_step (Collapse a) s = collapse a s"

definition click_run :: "click_op list \<Rightarrow> accordion_group \<Rightarrow> accordion_group" where
  "click_run ops s = fold click_step ops s"

subsection \<open>The accordion of \<open>src/ui/components/Accordion.ts\<close>: \<open>open\<close>, \<open>close\<close>, \<open>toggle\<close>\<close>

text \<open>
  This class, the one \<open>AccordionGroup.ts\<close> imports, declares no \<open>collapse\<close> method. Calling
  the missing property throws a \<open>TypeError\<close> before anything else happens.
\<close>

definition missingMethod :: "ref \<Rightarrow> accordion_group \<Rightarrow> unit completion \<times> accordion_group" where
  "missingMethod c s = (Threw TypeError, s)"

definition Accordion_notifyExpanded :: "ref \<Rightarrow> accordion_group \<Rightarrow> accordion_group" where
  "Accordion_notifyExpanded a s =
     dispatchExpanded (accordionExpandedListener missingMethod) a s"

definition Accordion_toggle :: "ref \<Rightarrow> accordion_group \<Rightarrow> accordion_group" where
  "Accordion_toggle a s =
     (let s1 = s\<lparr>isExpanded := (isExpanded s)(a := \<not> isExpanded s a)\<rparr>
      in if isExpanded s1 a then Accordion_notifyExpanded a s1 else s1)"

definition Accordion_open :: "ref \<Rightarrow> accordion_group \<Rightarrow> accordion_group" where
  "Accordion_open a s = (if \<not> isExpanded s a then Accordion_toggle a s else s)"

definition Accordion_close :: "ref \<Rightarrow> accordion_group \<Rightarrow> accordion_group" where
  "Accordion_close a s = (if isExpanded s a then Accordion_toggle a s else s)"

text \<open>What a page can do to the accordions of a group through their public methods.\<close>

datatype accordion_op = Open ref | Close ref | Toggle ref

fun accordion_step :: "accordion_op \<Rightarrow> accordion_group \<Rightarrow> accordion_group" where
  "accordion_step (Open a) s = Accordion_open a s"
| "accordion_step (Close a) s = Accordion_close a s"
| "accordion_step (Toggle a) s = Accordion_toggle a s"

definition accordion_run :: "accordion_op list \<Rightarrow> accordion_group \<Rightarrow> accordion_group" where
  "accordion_run ops s = fold accordion_step ops s"

section \<open>Invariants of the groups\<close>

text \<open>
  Once a tab group listens and its panels are upgraded, a panel of the group that carries
  \<open>active\<close> is the recorded \<open>_activeTab\<close>, and the recorded tab is upgraded. In a group of
  \<open>part_004\<close> accordions, an expanded accordion is the recorded \<open>currentOpenAccordion\<close>. The
  converse fails for both: the record may name a closed member.
\<close>

definition tab_inv :: "tab_group \<Rightarrow> bool" where
  "tab_inv g =
     (listening g
      \<and> (\<forall>t \<in> set (tabs g). upgraded g t)
      \<and> (\<forall>c. activeTab g = Some c \<longrightarrow> upgraded g c)
      \<and> (\<forall>t \<in> set (tabs g). activeAttr g t \<longrightarrow> activeTab g = Some t))"

definition accordion_inv :: "accordion_group \<Rightarrow> bool" where
  "accordion_inv s = (\<forall>a. isExpanded s a \<longrightarrow> currentOpenAccordion s = Some a)"

section \<open>Binary64 rounding: exactness on small integers and the error bound\<close>


lemma round_half_even_of_int [simp]: "round_half_even (of_int k) = k"
  by (simp add: round_half_even_def)

lemma floor_log2_bounds:
  assumes "0 < a"
  shows "2 powi floor_log2 a \<le> a" and "a < 2 powi (floor_log2 a + 1)"
proof -
  obtain p q where pq: "quotient_of a = (p, q)" by (cases "quotient_of a")
  then have q: "0 < q" and a: "a = of_int p / of_int q"
    using quotient_of_denom_pos quotient_of_div by blast+
  with assms have p: "0 < p" by (simp add: zero_less_divide_iff)
  define bp bq where "bp = bitlen p" and "bq = bitlen q"
  from bitlen_bounds [OF p] have plo: "2 ^ nat (bp - 1) \<le> p" and phi: "p < 2 ^ nat bp"
    by (simp_all add: bp_def)
  from bitlen_bounds [OF q] have qlo: "2 ^ nat (bq - 1) \<le> q" and qhi: "q < 2 ^ nat bq"
    by (simp_all add: bq_def)
  have bp1: "1 \<le> bp" using p bitlen_eq_zero_iff [of p] bitlen_nonneg [of p] by (simp add: bp_def)
  have bq1: "1 \<le> bq" using q bitlen_eq_zero_iff [of q] bitlen_nonneg [of q] by (simp add: bq_def)
  have P1: "(2::rat) powi (bp - 1) \<le> of_int p"
  proof -
    have "(2::rat) powi (bp - 1) = 2 ^ nat (bp - 1)" using bp1 by (simp add: power_int_def)
    also have "\<dots> = of_int (2 ^ nat (bp - 1))" by simp
    also have "\<dots> \<le> of_int p" using plo by (simp only: of_int_le_iff)
    finally show ?thesis .
  qed
  have P2: "of_int p < (2::rat) powi bp"
  proof -
    have "(of_int p :: rat) < of_int (2 ^ nat bp)" using phi by (simp only: of_int_less_iff)
    also have "\<dots> = 2 powi bp" using bp1 by (simp add: power_int_def)
    finally show ?thesis .
  qed
  have Q1: "(2::rat) powi (bq - 1) \<le> of_int q"
  proof -
    have "(2::rat) powi (bq - 1) = 2 ^ nat (bq - 1)" using bq1 by (simp add: power_int_def)
    also have "\<dots> = of_int (2 ^ nat (bq - 1))" by simp
    also have "\<dots> \<le> of_int q" using qlo by (simp only: of_int_le_iff)
    finally show ?thesis .
  qed
  have Q2: "of_int q < (2::rat) powi bq"
  proof -
    have "(of_int q :: rat) < of_int (2 ^ nat bq)" using qhi by (simp only: of_int_less_iff)
    also have "\<dots> = 2 powi bq" using bq1 by (simp add: power_int_def)
    finally show ?thesis .
  qed
  have qpos: "(0::rat) < of_int q" using q by simp
  have lower: "(2::rat) powi (bp - bq - 1) \<le> a"
  proof -
    have "(2::rat) powi (bp - bq - 1) * of_int q \<le> 2 powi (bp - bq - 1) * 2 powi bq"
      using Q2 by (intro mult_left_mono) simp_all
    also have "\<dots> = 2 powi (bp - 1)" by (simp flip: power_int_add)
    also have "\<dots> \<le> of_int p" by (rule P1)
    finally show ?thesis using qpos by (simp add: a pos_le_divide_eq)
  qed
  have upper: "a < (2::rat) powi (bp - bq + 1)"
  proof -
    have "of_int p < (2::rat) powi bp" by (rule P2)
    also have "\<dots> = 2 powi (bp - bq + 1) * 2 powi (bq - 1)" by (simp flip: power_int_add)
    also have "\<dots> \<le> 2 powi (bp - bq + 1) * of_int q"
      using Q1 by (intro mult_left_mono) simp_all
    finally show ?thesis using qpos by (simp add: a pos_divide_less_eq)
  qed
  have fl: "floor_log2 a = (if 2 powi (bp - bq) \<le> a then bp - bq else bp - bq - 1)"
    by (simp add: floor_log2_def pq Let_def bp_def bq_def)
  show "2 powi floor_log2 a \<le> a" using lower by (simp add: fl)
  show "a < 2 powi (floor_log2 a + 1)" using upper by (auto simp: fl not_le)
qed

lemma round64_of_int:
  assumes "\<bar>n\<bar> < 2 ^ 53"
  shows "round64 (of_int n) = Finite (of_int n)"
proof (cases "n = 0")
  case True
  then show ?thesis by (simp add: round64_def)
next
  case False
  define a :: rat where "a = \<bar>of_int n\<bar>"
  define e where "e = floor_log2 a"
  define q where "q = max (e - 52) (- 1074)"
  have a_int: "a = of_int \<bar>n\<bar>" by (simp add: a_def)
  from False have "1 \<le> \<bar>n\<bar>" by simp
  then have a1: "1 \<le> a" unfolding a_int by (simp only: of_int_1_le_iff)
  then have apos: "0 < a" by simp
  have lo: "(2::rat) powi e \<le> a" and hi: "a < 2 powi (e + 1)"
    unfolding e_def by (rule floor_log2_bounds [OF apos])+
  have a53: "a < 2 powi 53"
  proof -
    have "a < of_int (2 ^ 53)" unfolding a_int using assms by (simp only: of_int_less_iff)
    then show ?thesis by simp
  qed
  have e_ge: "0 \<le> e"
  proof (rule ccontr)
    assume "\<not> 0 \<le> e"
    then have "e + 1 \<le> 0" by simp
    then have "(2::rat) powi (e + 1) \<le> 2 powi 0" by (intro power_int_increasing) simp_all
    with hi a1 show False by simp
  qed
  have e_le: "e \<le> 52"
  proof (rule ccontr)
    assume "\<not> e \<le> 52"
    then have "53 \<le> e" by simp
    then have "(2::rat) powi 53 \<le> 2 powi e" by (intro power_int_increasing) simp_all
    with lo a53 show False by simp
  qed
  from e_ge e_le have q_eq: "q = e - 52" by (simp add: q_def)
  have scaled: "a / 2 powi q = of_int (\<bar>n\<bar> * 2 ^ nat (52 - e))"
  proof -
    have "(2::rat) powi q = 1 / 2 ^ nat (52 - e)"
      using e_le by (simp add: q_eq power_int_def field_simps)
    then show ?thesis by (simp add: a_int)
  qed
  have r: "of_int (round_half_even (a / 2 powi q)) * (2::rat) powi q = a"
  proof -
    have "of_int (round_half_even (a / 2 powi q)) = a / (2::rat) powi q"
      unfolding scaled by (simp only: round_half_even_of_int)
    then show ?thesis by simp
  qed
  have fin: "\<not> a \<ge> 2 powi 1024"
  proof -
    have "(2::rat) powi 53 \<le> 2 powi 1024" by (intro power_int_increasing) simp_all
    with a53 show ?thesis by simp
  qed
  have "round64 (of_int n) = Finite (if (of_int n :: rat) < 0 then - a else a)"
    using False fin
    by (simp add: round64_def Let_def a_def [symmetric] e_def [symmetric] q_def [symmetric] r)
  also have "(if (of_int n :: rat) < 0 then - a else a) = of_int n"
    by (simp add: a_def abs_if)
  finally show ?thesis .
qed

lemma round64_numeral [simp]:
  "(numeral k :: int) < 2 ^ 53 \<Longrightarrow> round64 (numeral k) = Finite (numeral k)"
  using round64_of_int [of "numeral k"] by simp

lemma round64_neg_numeral [simp]:
  "(numeral k :: int) < 2 ^ 53 \<Longrightarrow> round64 (- numeral k) = Finite (- numeral k)"
  using round64_of_int [of "- numeral k"] by simp

lemma round64_zero [simp]: "round64 0 = Finite 0"
  by (simp add: round64_def)

lemma round64_one [simp]: "round64 1 = Finite 1"
  using round64_of_int [of 1] by simp

lemma round64_not_nan [simp]: "round64 x \<noteq> NotANumber"
  by (simp add: round64_def Let_def)




section \<open>Placement: the horizontal and vertical rules and the bounds\<close>

lemmas rect_simps = rect_left_def rect_top_def rect_bottom_def js_greater_def









text \<open>
  C2 (as amended). In the code's binary64 arithmetic, the returned \<open>left\<close> is the centred
  candidate \<open>anchor.x + (anchor.width - content.width) / 2\<close>, moved to
  \<open>viewport.width - content.width - 8\<close> when the candidate's right edge passes the viewport
  width itself (the margin is not subtracted in this test), and finally raised to \<open>8\<close> when
  it is below \<open>8\<close>.
\<close>

theorem placement_left_rule:
  "style_left (updatePosition anchor content vp) =
     (let centred = js_add (rect_x anchor)
                      (js_div_by_2 (js_sub (rect_width anchor) (rect_width content)));
          shifted = (if js_greater (js_add centred (rect_width content)) (innerWidth vp)
                     then js_sub (js_sub (innerWidth vp) (rect_width content)) (Finite 8)
                     else centred)
      in if js_less shifted (Finite 8) then Finite 8 else shifted)"
  by (simp add: updatePosition_def Let_def rect_simps)

text \<open>
  C2 as stated fails: with a 1000 pixel wide viewport, an anchor at \<open>x = 895\<close> of width 100
  and content of width 100, the centred candidate 895 ends at 995, beyond
  \<open>viewport.width - margin = 992\<close> but inside the viewport; the code keeps 895 where the
  stated rule gives 892. All values are integers, so no rounding takes place.
\<close>

theorem placement_left_counterexample:
  "style_left (updatePosition
       \<lparr>rect_x = Finite 895, rect_y = Finite 100, rect_width = Finite 100, rect_height = Finite 30\<rparr>
       \<lparr>rect_x = Finite 0, rect_y = Finite 0, rect_width = Finite 100, rect_height = Finite 50\<rparr>
       \<lparr>innerWidth = Finite 1000, innerHeight = Finite 768\<rparr>) = Finite 895
   \<and> spec_place_left (Finite 8)
       \<lparr>rect_x = Finite 895, rect_y = Finite 100, rect_width = Finite 100, rect_height = Finite 30\<rparr>
       \<lparr>rect_x = Finite 0, rect_y = Finite 0, rect_width = Finite 100, rect_height = Finite 50\<rparr>
       \<lparr>innerWidth = Finite 1000, innerHeight = Finite 768\<rparr> = Finite 892"
  by (simp add: updatePosition_def spec_place_left_def Let_def rect_simps)

text \<open>
  C3 (as amended). In the code's binary64 arithmetic, whenever the below-anchor candidate
  passes the viewport height itself (\<open>anchor.bottom + 8 + content.height > viewport.height\<close>),
  the returned \<open>top\<close> is \<open>aboveTop = anchor.top - content.height - 8\<close> if \<open>aboveTop > 0\<close> and
  \<open>viewport.height - content.height - 8\<close> otherwise; for the viewport 1024 by 768, the anchor
  \<open>{x:500, y:700, w:100, h:30}\<close> and content 200 by 100 the returned \<open>top\<close> is 592.
\<close>

theorem placement_top_rule:
  "(js_greater (js_add (js_add (rect_bottom anchor) (Finite 8)) (rect_height content))
        (innerHeight vp) \<longrightarrow>
      style_top (updatePosition anchor content vp) =
        (let aboveTop = js_sub (js_sub (rect_top anchor) (rect_height content)) (Finite 8)
         in if js_greater aboveTop (Finite 0) then aboveTop
            else js_sub (js_sub (innerHeight vp) (rect_height content)) (Finite 8)))
   \<and> style_top (updatePosition
         \<lparr>rect_x = Finite 500, rect_y = Finite 700, rect_width = Finite 100, rect_height = Finite 30\<rparr>
         \<lparr>rect_x = Finite 0, rect_y = Finite 0, rect_width = Finite 200, rect_height = Finite 100\<rparr>
         \<lparr>innerWidth = Finite 1024, innerHeight = Finite 768\<rparr>) = Finite 592"
  by (simp add: updatePosition_def Let_def rect_simps)

theorem placement_top_rule_witness:
  "js_greater
      (js_add (js_add (rect_bottom
         \<lparr>rect_x = Finite 500, rect_y = Finite 700, rect_width = Finite 100, rect_height = Finite 30\<rparr>)
         (Finite 8))
       (rect_height
         \<lparr>rect_x = Finite 0, rect_y = Finite 0, rect_width = Finite 200, rect_height = Finite 100\<rparr>))
      (innerHeight \<lparr>innerWidth = Finite 1024, innerHeight = Finite 768\<rparr>)
   \<and> style_top (updatePosition
         \<lparr>rect_x = Finite 500, rect_y = Finite 700, rect_width = Finite 100, rect_height = Finite 30\<rparr>
         \<lparr>rect_x = Finite 0, rect_y = Finite 0, rect_width = Finite 200, rect_height = Finite 100\<rparr>
         \<lparr>innerWidth = Finite 1024, innerHeight = Finite 768\<rparr>) = Finite (700 - 100 - 8)"
  using placement_top_rule [where
         anchor = "\<lparr>rect_x = Finite 500, rect_y = Finite 700, rect_width = Finite 100, rect_height = Finite 30\<rparr>"
         and content = "\<lparr>rect_x = Finite 0, rect_y = Finite 0, rect_width = Finite 200, rect_height = Finite 100\<rparr>"
         and vp = "\<lparr>innerWidth = Finite 1024, innerHeight = Finite 768\<rparr>"]
  by (simp add: rect_simps)

text \<open>
  C3 as stated fails: in a viewport 768 high, with the anchor at \<open>y = 600\<close> of height 30 and
  content of height 125, the below candidate 638 ends at 763, beyond
  \<open>viewport.height - margin = 760\<close>, and \<open>aboveTop = 467 > 0\<close>; the code keeps 638 where the
  stated rule flips to 467. All values are integers, so no rounding takes place.
\<close>

theorem placement_top_counterexample:
  "js_greater
      (js_add (js_add (rect_bottom
         \<lparr>rect_x = Finite 500, rect_y = Finite 600, rect_width = Finite 100, rect_height = Finite 30\<rparr>)
         (Finite 8))
       (rect_height
         \<lparr>rect_x = Finite 0, rect_y = Finite 0, rect_width = Finite 200, rect_height = Finite 125\<rparr>))
      (js_sub (innerHeight \<lparr>innerWidth = Finite 1024, innerHeight = Finite 768\<rparr>) (Finite 8))
   \<and> js_greater
      (js_sub (js_sub (rect_top
         \<lparr>rect_x = Finite 500, rect_y = Finite 600, rect_width = Finite 100, rect_height = Finite 30\<rparr>)
         (rect_height
         \<lparr>rect_x = Finite 0, rect_y = Finite 0, rect_width = Finite 200, rect_height = Finite 125\<rparr>))
       (Finite 8))
      (Finite 0)
   \<and> style_top (updatePosition
         \<lparr>rect_x = Finite 500, rect_y = Finite 600, rect_width = Finite 100, rect_height = Finite 30\<rparr>
         \<lparr>rect_x = Finite 0, rect_y = Finite 0, rect_width = Finite 200, rect_height = Finite 125\<rparr>
         \<lparr>innerWidth = Finite 1024, innerHeight = Finite 768\<rparr>) = Finite 638
   \<and> spec_place_top (Finite 8)
         \<lparr>rect_x = Finite 500, rect_y = Finite 600, rect_width = Finite 100, rect_height = Finite 30\<rparr>
         \<lparr>rect_x = Finite 0, rect_y = Finite 0, rect_width = Finite 200, rect_height = Finite 125\<rparr>
         \<lparr>innerWidth = Finite 1024, innerHeight = Finite 768\<rparr> = Finite 467"
  by (simp add: updatePosition_def spec_place_top_def Let_def rect_simps)




section \<open>Arrays: facts about \<open>indexOf\<close>\<close>

lemma indexOfFrom_notin: "x \<notin> set xs \<Longrightarrow> indexOfFrom k xs x = -1"
  by (induction xs arbitrary: k) auto

lemma indexOf_notin: "x \<notin> set xs \<Longrightarrow> indexOf xs x = -1"
  by (simp add: indexOf_def indexOfFrom_notin)

lemma indexOfFrom_nth:
  "distinct xs \<Longrightarrow> i < length xs \<Longrightarrow> indexOfFrom k xs (xs ! i) = k + int i"
proof (induction xs arbitrary: k i)
  case Nil
  then show ?case by simp
next
  case (Cons y ys)
  show ?case
  proof (cases i)
    case 0
    then show ?thesis by simp
  next
    case (Suc j)
    with Cons.prems have "ys ! j \<noteq> y" "j < length ys" "distinct ys" by auto
    with Cons.IH [of j "k + 1"] Suc show ?thesis by simp
  qed
qed

lemma indexOf_nth: "distinct xs \<Longrightarrow> i < length xs \<Longrightarrow> indexOf xs (xs ! i) = int i"
  by (simp add: indexOf_def indexOfFrom_nth)

lemma indexOf_first: "xs \<noteq> [] \<Longrightarrow> indexOf xs (xs ! 0) = 0"
  by (cases xs) (simp_all add: indexOf_def)

lemma indexOf_last: "distinct xs \<Longrightarrow> xs \<noteq> [] \<Longrightarrow> indexOf xs (last xs) = int (length xs) - 1"
proof -
  assume d: "distinct xs" and ne: "xs \<noteq> []"
  from ne have lt: "length xs - 1 < length xs" and eq: "int (length xs - 1) = int (length xs) - 1"
    by (cases xs; simp)+
  from ne have "last xs = xs ! (length xs - 1)" by (rule last_conv_nth)
  with indexOf_nth [OF d lt] eq show ?thesis by simp
qed

section \<open>Dropdown: the focus cursor and the close paths\<close>

lemma dropdown_down_at_last:
  assumes "menuItems d \<noteq> []" "distinct (menuItems d)" "activeElement d = MenuItem (last (menuItems d))"
  shows "handleContentKeydown ArrowDown d = (Returned (), d)"
proof -
  let ?items = "map MenuItem (menuItems d)"
  have "distinct ?items" using assms(2) by (simp add: distinct_map inj_on_def)
  moreover have "?items \<noteq> []" using assms(1) by simp
  moreover have "last ?items = activeElement d" using assms by (simp add: last_map)
  ultimately have "indexOf ?items (activeElement d) = int (length ?items) - 1"
    using indexOf_last [of ?items] by simp
  then show ?thesis by (simp add: handleContentKeydown_def Let_def)
qed

lemma dropdown_up_at_first:
  assumes "menuItems d \<noteq> []" "activeElement d = MenuItem (hd (menuItems d))"
  shows "handleContentKeydown ArrowUp d = (Returned (), d)"
proof -
  let ?items = "map MenuItem (menuItems d)"
  have "indexOf ?items (activeElement d) = 0"
    using assms by (cases "menuItems d") (simp_all add: indexOf_def)
  then show ?thesis by (simp add: handleContentKeydown_def Let_def)
qed

text \<open>
  C7 fails on the code. The Escape branch closes through \<open>hideMenu\<close> and then calls
  \<open>this.trigger.focus()\<close> once more, and the Tab branch closes through \<open>hideMenu\<close>; but the
  trigger is a \<open>div\<close> without \<open>tabindex\<close>, so none of these calls moves the focus. With the
  menu open and the focus on a menu item, Escape hides the content and issues two
  \<open>focus()\<close> calls on the trigger, and the focus is not on the trigger afterwards; the same
  holds for Tab.
\<close>

theorem escape_does_not_focus_trigger:
  "\<not> hidden \<lparr>hidden = False, activeElement = MenuItem 5, menuItems = [5, 6, 7],
       itemFocusable = (\<lambda>_. True), focusCalls = []\<rparr>
   \<and> fst (handleContentKeydown Escape
        \<lparr>hidden = False, activeElement = MenuItem 5, menuItems = [5, 6, 7],
         itemFocusable = (\<lambda>_. True), focusCalls = []\<rparr>) = Returned ()
   \<and> hidden (snd (handleContentKeydown Escape
        \<lparr>hidden = False, activeElement = MenuItem 5, menuItems = [5, 6, 7],
         itemFocusable = (\<lambda>_. True), focusCalls = []\<rparr>))
   \<and> focusCalls (snd (handleContentKeydown Escape
        \<lparr>hidden = False, activeElement = MenuItem 5, menuItems = [5, 6, 7],
         itemFocusable = (\<lambda>_. True), focusCalls = []\<rparr>)) = [TriggerEl, TriggerEl]
   \<and> activeElement (snd (handleContentKeydown Escape
        \<lparr>hidden = False, activeElement = MenuItem 5, menuItems = [5, 6, 7],
         itemFocusable = (\<lambda>_. True), focusCalls = []\<rparr>)) \<noteq> TriggerEl
   \<and> activeElement (snd (handleContentKeydown Tab
        \<lparr>hidden = False, activeElement = MenuItem 5, menuItems = [5, 6, 7],
         itemFocusable = (\<lambda>_. True), focusCalls = []\<rparr>)) \<noteq> TriggerEl"
  by (simp add: handleContentKeydown_def hideMenu_def focus_def Let_def)

section \<open>Tab group: what each method leaves unchanged\<close>

lemmas tab_defs = select_def deselect_def isActive_def setActiveAttribute_def
  removeActiveAttribute_def deactivate_def

lemma fold_remove_fields [simp]:
  "tabs (fold removeActiveAttribute xs g) = tabs g"
  "activeTab (fold removeActiveAttribute xs g) = activeTab g"
  "listening (fold removeActiveAttribute xs g) = listening g"
  "triggerEls (fold removeActiveAttribute xs g) = triggerEls g"
  "panelEls (fold removeActiveAttribute xs g) = panelEls g"
  "upgraded (fold removeActiveAttribute xs g) = upgraded g"
  "selectedAttr (fold removeActiveAttribute xs g) = selectedAttr g"
  by (induction xs arbitrary: g; simp add: removeActiveAttribute_def)+

lemma fold_remove_active [simp]:
  "activeAttr (fold removeActiveAttribute xs g) r = (activeAttr g r \<and> r \<notin> set xs)"
  by (induction xs arbitrary: g) (auto simp: removeActiveAttribute_def)

lemma deactivate_fields [simp]:
  "tabs (deactivate t g) = tabs g"
  "activeTab (deactivate t g) = activeTab g"
  "listening (deactivate t g) = listening g"
  "triggerEls (deactivate t g) = triggerEls g"
  "panelEls (deactivate t g) = panelEls g"
  "upgraded (deactivate t g) = upgraded g"
  by (simp_all add: tab_defs)

lemma deactivate_active [simp]:
  "activeAttr (deactivate t g) r = (activeAttr g r \<and> r \<noteq> t)"
  by (auto simp: tab_defs)

lemma updateTabStatesFrom_fields [simp]:
  "tabs (snd (updateTabStatesFrom i k ts g)) = tabs g"
  "activeTab (snd (updateTabStatesFrom i k ts g)) = activeTab g"
  "listening (snd (updateTabStatesFrom i k ts g)) = listening g"
  "triggerEls (snd (updateTabStatesFrom i k ts g)) = triggerEls g"
  "panelEls (snd (updateTabStatesFrom i k ts g)) = panelEls g"
  "upgraded (snd (updateTabStatesFrom i k ts g)) = upgraded g"
  "activeAttr (snd (updateTabStatesFrom i k ts g)) = activeAttr g"
  by (induction i k ts g rule: updateTabStatesFrom.induct; simp add: tab_defs)+

lemma listener_fields [simp]:
  "tabs (snd (tabActivatedListener t g)) = tabs g"
  "activeTab (snd (tabActivatedListener t g)) = Some t"
  "listening (snd (tabActivatedListener t g)) = listening g"
  "triggerEls (snd (tabActivatedListener t g)) = triggerEls g"
  "panelEls (snd (tabActivatedListener t g)) = panelEls g"
  "upgraded (snd (tabActivatedListener t g)) = upgraded g"
  by (simp_all add: tabActivatedListener_def updateTabStates_def Let_def split: option.splits)

lemma listener_active [simp]:
  "activeAttr (snd (tabActivatedListener t g)) r =
     (activeAttr g r \<and> (r = t \<or> activeTab g \<noteq> Some r))"
  by (auto simp: tabActivatedListener_def updateTabStates_def Let_def split: option.splits)

lemma setActive_fields [simp]:
  "tabs (setActiveAttribute t g) = tabs g"
  "activeTab (setActiveAttribute t g) = activeTab g"
  "listening (setActiveAttribute t g) = listening g"
  "triggerEls (setActiveAttribute t g) = triggerEls g"
  "panelEls (setActiveAttribute t g) = panelEls g"
  "upgraded (setActiveAttribute t g) = upgraded g"
  "activeAttr (setActiveAttribute t g) r = (r = t \<or> activeAttr g r)"
  by (simp_all add: setActiveAttribute_def)

lemma activate_set [simp]: "activate t (setActiveAttribute t g) = setActiveAttribute t g"
  by (simp add: activate_def tab_defs)

lemma activate_fields [simp]:
  "tabs (activate t g) = tabs g"
  "listening (activate t g) = listening g"
  "triggerEls (activate t g) = triggerEls g"
  "panelEls (activate t g) = panelEls g"
  "upgraded (activate t g) = upgraded g"
  by (simp_all add: activate_def notifyActivated_def)

lemma activateTab_fields [simp]:
  "tabs (snd (activateTab x g)) = tabs g"
  "listening (snd (activateTab x g)) = listening g"
  "triggerEls (snd (activateTab x g)) = triggerEls g"
  "panelEls (snd (activateTab x g)) = panelEls g"
  "upgraded (snd (activateTab x g)) = upgraded g"
  by (simp_all add: activateTab_def Let_def split: option.splits)

text \<open>The recorded tab, if any, is upgraded.\<close>

lemma activateTab_Some:
  assumes "\<forall>c. activeTab g = Some c \<longrightarrow> upgraded g c" and "upgraded g t"
  shows "fst (activateTab (Some t) g) = Returned ()"
    and "activeTab (snd (activateTab (Some t) g)) = Some t"
    and "activeAttr (snd (activateTab (Some t) g)) r =
           (r = t \<or> (activeAttr g r \<and> r \<notin> set (tabs g) \<and> activeTab g \<noteq> Some r))"
  using assms by (auto simp: activateTab_def Let_def split: option.splits)


lemma activateTab_None:
  assumes "\<forall>c. activeTab g = Some c \<longrightarrow> upgraded g c"
  shows "fst (activateTab None g) = Threw TypeError"
    and "activeTab (snd (activateTab None g)) = activeTab g"
    and "activeAttr (snd (activateTab None g)) r =
           (activeAttr g r \<and> r \<notin> set (tabs g) \<and> activeTab g \<noteq> Some r)"
  using assms by (auto simp: activateTab_def Let_def split: option.splits)

lemma selectTab_in_range:
  assumes "0 \<le> i" "i < int (length (tabs g))"
    "\<forall>c. activeTab g = Some c \<longrightarrow> upgraded g c" "upgraded g (tabs g ! nat i)"
  shows "selectTab (Num i) g = (Returned True, snd (activateTab (Some (tabs g ! nat i)) g))"
proof -
  have "fst (activateTab (Some (tabs g ! nat i)) g) = Returned ()"
    using assms(3,4) by (rule activateTab_Some(1))
  then obtain g' where "activateTab (Some (tabs g ! nat i)) g = (Returned (), g')"
    by (cases "activateTab (Some (tabs g ! nat i)) g") simp
  with assms(1,2) show ?thesis by (simp add: selectTab_def)
qed

lemma selectTab_out_of_range:
  "i < 0 \<or> int (length (tabs g)) \<le> i \<Longrightarrow> selectTab (Num i) g = (Returned False, g)"
  by (auto simp: selectTab_def)

lemma selectTab_NaN:
  assumes "\<forall>c. activeTab g = Some c \<longrightarrow> upgraded g c"
  shows "selectTab NaN g = (Threw TypeError, snd (activateTab None g))"
proof -
  have "fst (activateTab None g) = Threw TypeError" using assms by (rule activateTab_None(1))
  then obtain g' where "activateTab None g = (Threw TypeError, g')"
    by (cases "activateTab None g") simp
  then show ?thesis by (simp add: selectTab_def)
qed

lemma snd_selectTab:
  "snd (selectTab i g) = g \<or> snd (selectTab i g) = snd (activateTab (array_get (tabs g) i) g)"
  by (auto simp: selectTab_def split: prod.splits completion.splits)

lemma selectTab_fields [simp]:
  "tabs (snd (selectTab i g)) = tabs g"
  "listening (snd (selectTab i g)) = listening g"
  "triggerEls (snd (selectTab i g)) = triggerEls g"
  "panelEls (snd (selectTab i g)) = panelEls g"
  "upgraded (snd (selectTab i g)) = upgraded g"
  using snd_selectTab [of i g] by auto

section \<open>Tab group: navigation\<close>

lemma js_rem_self: "0 < c \<Longrightarrow> js_rem c c = Num 0"
  by (simp add: js_rem_def)

lemma active_index_member:
  assumes "0 \<le> activeTabIndex g"
  obtains c where "activeTab g = Some c" and "c \<in> set (tabs g)"
proof (cases "activeTab g")
  case None
  with assms show ?thesis by (simp add: activeTabIndex_def)
next
  case (Some c)
  with assms have "indexOf (tabs g) c \<noteq> -1" by (simp add: activeTabIndex_def)
  then have "c \<in> set (tabs g)" using indexOf_notin [of c "tabs g"] by (cases "c \<in> set (tabs g)") simp_all
  with Some show ?thesis by (rule that)
qed

lemma recorded_tab_upgraded:
  assumes "\<forall>t \<in> set (tabs g). upgraded g t" "0 \<le> activeTabIndex g"
  shows "\<forall>c. activeTab g = Some c \<longrightarrow> upgraded g c"
  using active_index_member [OF assms(2)] assms(1) by (metis option.inject)

lemma nextTab_at_last:
  assumes "tabs g \<noteq> []" "\<forall>t \<in> set (tabs g). upgraded g t" "activeTabIndex g = tabCount g - 1"
  shows "fst (nextTab g) = Returned True"
    and "activeTabIndex (snd (nextTab g)) = 0"
    and "activeTab (snd (nextTab g)) = Some (tabs g ! 0)"
    and "\<forall>t \<in> set (tabs g). isActive t (snd (nextTab g)) \<longleftrightarrow> t = tabs g ! 0"
proof -
  from assms(1) have pos: "0 < tabCount g" by (simp add: tabCount_def)
  with assms(3) have idx: "0 \<le> activeTabIndex g" by simp
  have cur: "\<forall>c. activeTab g = Some c \<longrightarrow> upgraded g c"
    using assms(2) idx by (rule recorded_tab_upgraded)
  from assms(1,2) have up0: "upgraded g (tabs g ! nat 0)" by simp
  from pos assms(3) have "nextTab g = selectTab (Num 0) g"
    by (simp add: nextTab_def Let_def js_rem_self)
  also have "\<dots> = (Returned True, snd (activateTab (Some (tabs g ! nat 0)) g))"
    using pos cur up0 by (intro selectTab_in_range) (simp_all add: tabCount_def)
  finally have eq: "nextTab g = (Returned True, snd (activateTab (Some (tabs g ! 0)) g))" by simp
  from up0 have up: "upgraded g (tabs g ! 0)" by simp
  show "fst (nextTab g) = Returned True" by (simp add: eq)
  show "activeTab (snd (nextTab g)) = Some (tabs g ! 0)"
    by (simp add: eq activateTab_Some(2) [OF cur up])
  then show "activeTabIndex (snd (nextTab g)) = 0"
    using assms(1) by (simp add: activeTabIndex_def eq indexOf_first)
  show "\<forall>t \<in> set (tabs g). isActive t (snd (nextTab g)) \<longleftrightarrow> t = tabs g ! 0"
    by (auto simp: eq isActive_def activateTab_Some(3) [OF cur up])
qed

lemma previousTab_at_first:
  assumes "distinct (tabs g)" "tabs g \<noteq> []" "\<forall>t \<in> set (tabs g). upgraded g t"
    "activeTabIndex g = 0"
  shows "fst (previousTab g) = Returned True"
    and "activeTabIndex (snd (previousTab g)) = tabCount g - 1"
    and "activeTab (snd (previousTab g)) = Some (last (tabs g))"
    and "\<forall>t \<in> set (tabs g). isActive t (snd (previousTab g)) \<longleftrightarrow> t = last (tabs g)"
proof -
  from assms(2) have pos: "0 < tabCount g" by (simp add: tabCount_def)
  have cur: "\<forall>c. activeTab g = Some c \<longrightarrow> upgraded g c"
    using assms(3) by (rule recorded_tab_upgraded) (simp add: assms(4))
  from pos have lt: "nat (tabCount g - 1) < length (tabs g)"
    unfolding tabCount_def by linarith
  from pos have "nat (tabCount g - 1) = length (tabs g) - 1"
    unfolding tabCount_def by linarith
  with last_conv_nth [OF assms(2)] have last: "tabs g ! nat (tabCount g - 1) = last (tabs g)"
    by simp
  from lt assms(3) have up: "upgraded g (last (tabs g))" by (simp flip: last)
  from assms(4) have "previousTab g = selectTab (Num (tabCount g - 1)) g"
    by (simp add: previousTab_def Let_def)
  also have "\<dots> = (Returned True, snd (activateTab (Some (tabs g ! nat (tabCount g - 1))) g))"
    using pos cur up by (intro selectTab_in_range) (simp_all add: tabCount_def last [unfolded tabCount_def])
  finally have eq: "previousTab g = (Returned True, snd (activateTab (Some (last (tabs g))) g))"
    by (simp add: last)
  have "indexOf (tabs g) (tabs g ! nat (tabCount g - 1)) = int (nat (tabCount g - 1))"
    using assms(1) lt by (rule indexOf_nth)
  then have idx: "indexOf (tabs g) (last (tabs g)) = tabCount g - 1" using pos by (simp add: last)
  show "fst (previousTab g) = Returned True" by (simp add: eq)
  show "activeTab (snd (previousTab g)) = Some (last (tabs g))"
    by (simp add: eq activateTab_Some(2) [OF cur up])
  then show "activeTabIndex (snd (previousTab g)) = tabCount g - 1"
    by (simp add: activeTabIndex_def eq idx)
  show "\<forall>t \<in> set (tabs g). isActive t (snd (previousTab g)) \<longleftrightarrow> t = last (tabs g)"
    by (auto simp: eq isActive_def activateTab_Some(3) [OF cur up])
qed

text \<open>
  C5. In a dropdown, ArrowDown with the focus on the last menu item and ArrowUp with the
  focus on the first menu item return without changing the state: the focus stays and no
  \<open>focus()\<close> call is made. In a tab group with at least one tab, \<open>nextTab()\<close> at the last
  index returns \<open>true\<close> and selects index 0: the first panel becomes the recorded tab, it
  carries \<open>active\<close>, and no other panel of the group does. \<open>previousTab()\<close> at index 0
  returns \<open>true\<close> and selects index \<open>count - 1\<close> in the same sense. The menu items and the
  tabs are the results of \<open>querySelectorAll\<close>, which lists every element once, and the tabs
  are \<open>Tab\<close> elements, as the field's type \<open>Tab[]\<close> says.
\<close>

theorem clamp_versus_wraparound:
  "(menuItems d \<noteq> [] \<and> distinct (menuItems d)
      \<and> activeElement d = MenuItem (last (menuItems d))
      \<longrightarrow> handleContentKeydown ArrowDown d = (Returned (), d))
   \<and> (menuItems d' \<noteq> [] \<and> activeElement d' = MenuItem (hd (menuItems d'))
      \<longrightarrow> handleContentKeydown ArrowUp d' = (Returned (), d'))
   \<and> (tabs g \<noteq> [] \<and> (\<forall>t \<in> set (tabs g). upgraded g t) \<and> activeTabIndex g = tabCount g - 1
      \<longrightarrow> fst (nextTab g) = Returned True
          \<and> activeTabIndex (snd (nextTab g)) = 0
          \<and> activeTab (snd (nextTab g)) = Some (tabs g ! 0)
          \<and> (\<forall>t \<in> set (tabs g). isActive t (snd (nextTab g)) \<longleftrightarrow> t = tabs g ! 0))
   \<and> (distinct (tabs g') \<and> tabs g' \<noteq> [] \<and> (\<forall>t \<in> set (tabs g'). upgraded g' t)
      \<and> activeTabIndex g' = 0
      \<longrightarrow> fst (previousTab g') = Returned True
          \<and> activeTabIndex (snd (previousTab g')) = tabCount g' - 1
          \<and> activeTab (snd (previousTab g')) = Some (last (tabs g'))
          \<and> (\<forall>t \<in> set (tabs g'). isActive t (snd (previousTab g')) \<longleftrightarrow> t = last (tabs g')))"
proof (intro conjI impI)
  assume "menuItems d \<noteq> [] \<and> distinct (menuItems d)
      \<and> activeElement d = MenuItem (last (menuItems d))"
  then show "handleContentKeydown ArrowDown d = (Returned (), d)"
    by (intro dropdown_down_at_last) simp_all
next
  assume "menuItems d' \<noteq> [] \<and> activeElement d' = MenuItem (hd (menuItems d'))"
  then show "handleContentKeydown ArrowUp d' = (Returned (), d')"
    by (intro dropdown_up_at_first) simp_all
next
  assume "tabs g \<noteq> [] \<and> (\<forall>t \<in> set (tabs g). upgraded g t)
      \<and> activeTabIndex g = tabCount g - 1"
  then have h: "tabs g \<noteq> []" "\<forall>t \<in> set (tabs g). upgraded g t"
      "activeTabIndex g = tabCount g - 1"
    by simp_all
  show "fst (nextTab g) = Returned True" using h by (rule nextTab_at_last(1))
  show "activeTabIndex (snd (nextTab g)) = 0" using h by (rule nextTab_at_last(2))
  show "activeTab (snd (nextTab g)) = Some (tabs g ! 0)" using h by (rule nextTab_at_last(3))
  show "\<forall>t \<in> set (tabs g). isActive t (snd (nextTab g)) \<longleftrightarrow> t = tabs g ! 0"
    using h by (rule nextTab_at_last(4))
next
  assume "distinct (tabs g') \<and> tabs g' \<noteq> [] \<and> (\<forall>t \<in> set (tabs g'). upgraded g' t)
      \<and> activeTabIndex g' = 0"
  then have h: "distinct (tabs g')" "tabs g' \<noteq> []" "\<forall>t \<in> set (tabs g'). upgraded g' t"
      "activeTabIndex g' = 0"
    by simp_all
  show "fst (previousTab g') = Returned True" using h by (rule previousTab_at_first(1))
  show "activeTabIndex (snd (previousTab g')) = tabCount g' - 1"
    using h by (rule previousTab_at_first(2))
  show "activeTab (snd (previousTab g')) = Some (last (tabs g'))"
    using h by (rule previousTab_at_first(3))
  show "\<forall>t \<in> set (tabs g'). isActive t (snd (previousTab g')) \<longleftrightarrow> t = last (tabs g')"
    using h by (rule previousTab_at_first(4))
qed

theorem clamp_versus_wraparound_witness:
  "\<not> hidden \<lparr>hidden = False, activeElement = MenuItem 7, menuItems = [5, 6, 7],
        itemFocusable = (\<lambda>_. True), focusCalls = []\<rparr>
   \<and> handleContentKeydown ArrowDown
        \<lparr>hidden = False, activeElement = MenuItem 7, menuItems = [5, 6, 7],
         itemFocusable = (\<lambda>_. True), focusCalls = []\<rparr>
      = (Returned (),
        \<lparr>hidden = False, activeElement = MenuItem 7, menuItems = [5, 6, 7],
         itemFocusable = (\<lambda>_. True), focusCalls = []\<rparr>)
   \<and> handleContentKeydown ArrowUp
        \<lparr>hidden = False, activeElement = MenuItem 5, menuItems = [5, 6, 7],
         itemFocusable = (\<lambda>_. True), focusCalls = []\<rparr>
      = (Returned (),
        \<lparr>hidden = False, activeElement = MenuItem 5, menuItems = [5, 6, 7],
         itemFocusable = (\<lambda>_. True), focusCalls = []\<rparr>)
   \<and> activeTabIndex
        \<lparr>panelEls = [10, 11, 12], triggerEls = [20, 21, 22], upgraded = (\<lambda>_. True),
         activeAttr = (\<lambda>r. r = 12), selectedAttr = (\<lambda>_. False), tabs = [10, 11, 12],
         activeTab = Some 12, listening = True\<rparr> = 2
   \<and> fst (nextTab
        \<lparr>panelEls = [10, 11, 12], triggerEls = [20, 21, 22], upgraded = (\<lambda>_. True),
         activeAttr = (\<lambda>r. r = 12), selectedAttr = (\<lambda>_. False), tabs = [10, 11, 12],
         activeTab = Some 12, listening = True\<rparr>) = Returned True
   \<and> activeTabIndex (snd (nextTab
        \<lparr>panelEls = [10, 11, 12], triggerEls = [20, 21, 22], upgraded = (\<lambda>_. True),
         activeAttr = (\<lambda>r. r = 12), selectedAttr = (\<lambda>_. False), tabs = [10, 11, 12],
         activeTab = Some 12, listening = True\<rparr>)) = 0
   \<and> isActive 10 (snd (nextTab
        \<lparr>panelEls = [10, 11, 12], triggerEls = [20, 21, 22], upgraded = (\<lambda>_. True),
         activeAttr = (\<lambda>r. r = 12), selectedAttr = (\<lambda>_. False), tabs = [10, 11, 12],
         activeTab = Some 12, listening = True\<rparr>))
   \<and> \<not> isActive 12 (snd (nextTab
        \<lparr>panelEls = [10, 11, 12], triggerEls = [20, 21, 22], upgraded = (\<lambda>_. True),
         activeAttr = (\<lambda>r. r = 12), selectedAttr = (\<lambda>_. False), tabs = [10, 11, 12],
         activeTab = Some 12, listening = True\<rparr>))
   \<and> fst (previousTab
        \<lparr>panelEls = [10, 11, 12], triggerEls = [20, 21, 22], upgraded = (\<lambda>_. True),
         activeAttr = (\<lambda>r. r = 10), selectedAttr = (\<lambda>_. False), tabs = [10, 11, 12],
         activeTab = Some 10, listening = True\<rparr>) = Returned True
   \<and> activeTabIndex (snd (previousTab
        \<lparr>panelEls = [10, 11, 12], triggerEls = [20, 21, 22], upgraded = (\<lambda>_. True),
         activeAttr = (\<lambda>r. r = 10), selectedAttr = (\<lambda>_. False), tabs = [10, 11, 12],
         activeTab = Some 10, listening = True\<rparr>)) = 2
   \<and> isActive 12 (snd (previousTab
        \<lparr>panelEls = [10, 11, 12], triggerEls = [20, 21, 22], upgraded = (\<lambda>_. True),
         activeAttr = (\<lambda>r. r = 10), selectedAttr = (\<lambda>_. False), tabs = [10, 11, 12],
         activeTab = Some 10, listening = True\<rparr>))
   \<and> \<not> isActive 10 (snd (previousTab
        \<lparr>panelEls = [10, 11, 12], triggerEls = [20, 21, 22], upgraded = (\<lambda>_. True),
         activeAttr = (\<lambda>r. r = 10), selectedAttr = (\<lambda>_. False), tabs = [10, 11, 12],
         activeTab = Some 10, listening = True\<rparr>))"
proof -
  define D where "D = \<lparr>hidden = False, activeElement = MenuItem 7, menuItems = [5, 6, 7],
         itemFocusable = (\<lambda>_. True), focusCalls = []\<rparr>"
  define D' where "D' = \<lparr>hidden = False, activeElement = MenuItem 5, menuItems = [5, 6, 7],
         itemFocusable = (\<lambda>_. True), focusCalls = []\<rparr>"
  define G where "G = \<lparr>panelEls = [10, 11, 12], triggerEls = [20, 21, 22], upgraded = (\<lambda>_. True),
         activeAttr = (\<lambda>r. r = 12), selectedAttr = (\<lambda>_. False), tabs = [10, 11, 12],
         activeTab = Some 12, listening = True\<rparr>"
  define G' where "G' = \<lparr>panelEls = [10, 11, 12], triggerEls = [20, 21, 22], upgraded = (\<lambda>_. True),
         activeAttr = (\<lambda>r. r = 10), selectedAttr = (\<lambda>_. False), tabs = [10, 11, 12],
         activeTab = Some 10, listening = True\<rparr>"
  note rule = clamp_versus_wraparound [of D D' G G']
  have open_menu: "\<not> hidden D" by (simp add: D_def)
  have h1: "menuItems D \<noteq> [] \<and> distinct (menuItems D)
      \<and> activeElement D = MenuItem (last (menuItems D))"
    by (simp add: D_def)
  have h2: "menuItems D' \<noteq> [] \<and> activeElement D' = MenuItem (hd (menuItems D'))"
    by (simp add: D'_def)
  have tabs: "tabs G = [10, 11, 12]" "tabs G' = [10, 11, 12]" by (simp_all add: G_def G'_def)
  have at_last: "activeTabIndex G = 2"
    by (simp add: G_def activeTabIndex_def indexOf_def)
  have h3: "tabs G \<noteq> [] \<and> (\<forall>t \<in> set (tabs G). upgraded G t)
      \<and> activeTabIndex G = tabCount G - 1"
    by (simp add: at_last tabCount_def tabs) (simp add: G_def)
  have h4: "distinct (tabs G') \<and> tabs G' \<noteq> [] \<and> (\<forall>t \<in> set (tabs G'). upgraded G' t)
      \<and> activeTabIndex G' = 0"
    by (simp add: tabs) (simp add: G'_def activeTabIndex_def indexOf_def)
  from rule h1 have c1: "handleContentKeydown ArrowDown D = (Returned (), D)" by blast
  from rule h2 have c2: "handleContentKeydown ArrowUp D' = (Returned (), D')" by blast
  from rule h3 have c3: "fst (nextTab G) = Returned True"
    "activeTabIndex (snd (nextTab G)) = 0"
    "\<forall>t \<in> set (tabs G). isActive t (snd (nextTab G)) \<longleftrightarrow> t = tabs G ! 0"
    by blast+
  from rule h4 have c4: "fst (previousTab G') = Returned True"
    "activeTabIndex (snd (previousTab G')) = tabCount G' - 1"
    "\<forall>t \<in> set (tabs G'). isActive t (snd (previousTab G')) \<longleftrightarrow> t = last (tabs G')"
    by blast+
  from c3(3) have a3: "isActive 10 (snd (nextTab G))" "\<not> isActive 12 (snd (nextTab G))"
    by (simp_all add: tabs)
  from c4(3) have a4: "isActive 12 (snd (previousTab G'))" "\<not> isActive 10 (snd (previousTab G'))"
    by (simp_all add: tabs)
  from c4(2) have i4: "activeTabIndex (snd (previousTab G')) = 2"
    by (simp add: tabCount_def tabs)
  from open_menu c1 c2 at_last c3(1,2) a3 c4(1) i4 a4 show ?thesis
    unfolding D_def D'_def G_def G'_def by blast
qed

lemma initializeTabs_upgraded:
  assumes "panelEls g \<noteq> []" "activeTab g = None" "upgraded g (hd (panelEls g))"
  shows "initializeTabs g =
           (Returned (), snd (activateTab (Some (hd (panelEls g))) (g\<lparr>tabs := panelEls g\<rparr>)))"
proof -
  let ?g1 = "g\<lparr>tabs := panelEls g\<rparr>"
  from assms(1) have hd: "tabs ?g1 ! nat 0 = hd (panelEls g)" by (simp add: hd_conv_nth)
  have "selectTab (Num 0) ?g1 = (Returned True, snd (activateTab (Some (tabs ?g1 ! nat 0)) ?g1))"
    using assms by (intro selectTab_in_range) (simp_all add: hd_conv_nth)
  with assms(1) hd show ?thesis by (simp add: initializeTabs_def Let_def)
qed





lemma activeTabIndex_empty: "tabs g = [] \<Longrightarrow> activeTabIndex g = -1"
  by (simp add: activeTabIndex_def indexOf_def split: option.splits)

text \<open>
  X3. \<open>selectTab(index)\<close> with an integer index outside \<open>[0, count)\<close> returns \<open>false\<close> and
  leaves the whole state unchanged, and \<open>previousTab()\<close> on a group without tabs returns
  \<open>false\<close> and leaves the state unchanged.
\<close>

theorem navigation_failures:
  "(i < 0 \<or> tabCount g \<le> i \<longrightarrow> selectTab (Num i) g = (Returned False, g))
   \<and> (tabs g = [] \<longrightarrow> previousTab g = (Returned False, g))"
  by (auto simp: selectTab_out_of_range tabCount_def previousTab_def Let_def activeTabIndex_empty)

theorem navigation_failures_witness:
  "selectTab (Num 3)
      \<lparr>panelEls = [10, 11, 12], triggerEls = [20, 21, 22], upgraded = (\<lambda>_. True),
       activeAttr = (\<lambda>r. r = 12), selectedAttr = (\<lambda>_. False), tabs = [10, 11, 12],
       activeTab = Some 12, listening = True\<rparr>
    = (Returned False,
      \<lparr>panelEls = [10, 11, 12], triggerEls = [20, 21, 22], upgraded = (\<lambda>_. True),
       activeAttr = (\<lambda>r. r = 12), selectedAttr = (\<lambda>_. False), tabs = [10, 11, 12],
       activeTab = Some 12, listening = True\<rparr>)
   \<and> previousTab
      \<lparr>panelEls = [], triggerEls = [], upgraded = (\<lambda>_. True), activeAttr = (\<lambda>_. False),
       selectedAttr = (\<lambda>_. False), tabs = [], activeTab = None, listening = True\<rparr>
    = (Returned False,
      \<lparr>panelEls = [], triggerEls = [], upgraded = (\<lambda>_. True), activeAttr = (\<lambda>_. False),
       selectedAttr = (\<lambda>_. False), tabs = [], activeTab = None, listening = True\<rparr>)"
  using navigation_failures [of 3
      "\<lparr>panelEls = [10, 11, 12], triggerEls = [20, 21, 22], upgraded = (\<lambda>_. True),
       activeAttr = (\<lambda>r. r = 12), selectedAttr = (\<lambda>_. False), tabs = [10, 11, 12],
       activeTab = Some 12, listening = True\<rparr>"]
    navigation_failures [of 0
      "\<lparr>panelEls = [], triggerEls = [], upgraded = (\<lambda>_. True), activeAttr = (\<lambda>_. False),
       selectedAttr = (\<lambda>_. False), tabs = [], activeTab = None, listening = True\<rparr>"]
  by (simp add: tabCount_def)

lemma nextTab_empty:
  assumes "tabs g = []" "activeTab g = None"
  shows "nextTab g = (Threw TypeError, snd (activateTab None g))"
  using assms
  by (simp add: nextTab_def Let_def activeTabIndex_empty tabCount_def js_rem_def selectTab_NaN)

text \<open>
  C6 fails on the code for \<open>nextTab()\<close>. On a connected group without tabs,
  \<open>activeTabIndex\<close> is \<open>-1\<close> and \<open>tabCount\<close> is 0, so the index passed on is \<open>0 % 0 = NaN\<close>;
  \<open>NaN\<close> passes the range guard of \<open>selectTab\<close>, \<open>this.tabs[NaN]\<close> is undefined, and
  \<open>activateTab\<close> throws a \<open>TypeError\<close> where the claim (and the method's own documentation,
  "false if there is no next tab") promises a boolean.
\<close>

theorem nextTab_empty_group_throws:
  "fst (nextTab (snd (connectedCallback
      \<lparr>panelEls = [], triggerEls = [], upgraded = (\<lambda>_. True), activeAttr = (\<lambda>_. False),
       selectedAttr = (\<lambda>_. False), tabs = [], activeTab = None, listening = False\<rparr>)))
    = Threw TypeError"
  by (simp add: connectedCallback_def initializeTabs_def setupTabListeners_def Let_def nextTab_empty)

section \<open>Tab group: at most one active panel\<close>

lemma tab_inv_activateTab:
  assumes "tab_inv g" "x = None \<or> (\<exists>t \<in> set (tabs g). x = Some t)"
  shows "tab_inv (snd (activateTab x g))"
proof -
  from assms(1) have cur: "\<forall>c. activeTab g = Some c \<longrightarrow> upgraded g c"
    and ups: "\<forall>t \<in> set (tabs g). upgraded g t" and l: "listening g"
    by (simp_all add: tab_inv_def)
  show ?thesis
  proof (cases x)
    case None
    with cur ups l show ?thesis
      by (simp add: tab_inv_def activateTab_None(2,3) [OF cur])
  next
    case (Some t)
    with assms(2) have "t \<in> set (tabs g)" by simp
    with ups have up: "upgraded g t" by simp
    with Some cur ups l show ?thesis
      by (simp add: tab_inv_def activateTab_Some(2,3) [OF cur up])
  qed
qed

lemma array_get_member:
  "array_get xs i = None \<or> (\<exists>t \<in> set xs. array_get xs i = Some t)"
  by (cases i) auto

lemma tab_inv_selectTab: "tab_inv g \<Longrightarrow> tab_inv (snd (selectTab i g))"
  using snd_selectTab [of i g] tab_inv_activateTab [OF _ array_get_member, of g i]
  by (cases "snd (selectTab i g) = g") simp_all

lemma tab_inv_activate: "tab_inv g \<Longrightarrow> upgraded g t \<Longrightarrow> tab_inv (activate t g)"
  by (auto simp: tab_inv_def activate_def notifyActivated_def isActive_def)

lemma tab_inv_deactivate: "tab_inv g \<Longrightarrow> tab_inv (deactivate t g)"
  by (auto simp: tab_inv_def)

lemma tab_inv_step: "tab_inv g \<Longrightarrow> tab_inv (tab_step op g)"
  by (cases op)
     (simp_all add: tab_inv_selectTab tab_inv_activate tab_inv_deactivate
        nextTab_def previousTab_def tabTriggerClickListener_def Let_def)

lemma tab_inv_fold: "tab_inv g \<Longrightarrow> tab_inv (fold tab_step ops g)"
  by (induction ops arbitrary: g) (simp_all add: tab_inv_step)

lemma tab_inv_connected:
  assumes "constructed g" "\<forall>t \<in> set (panelEls g). upgraded g t"
  shows "tab_inv (snd (connectedCallback g))"
proof (cases "panelEls g = []")
  case True
  with assms(1) show ?thesis
    by (simp add: connectedCallback_def initializeTabs_def Let_def setupTabListeners_def
          tab_inv_def constructed_def)
next
  case False
  from assms(1) have c: "activeTab g = None" by (simp add: constructed_def)
  from False assms(2) have up: "upgraded g (hd (panelEls g))" by simp
  let ?g1 = "g\<lparr>tabs := panelEls g\<rparr>"
  have cur: "\<forall>c. activeTab ?g1 = Some c \<longrightarrow> upgraded ?g1 c" using c by simp
  have up1: "upgraded ?g1 (hd (panelEls g))" using up by simp
  show ?thesis
    using assms(2) up
    by (simp add: connectedCallback_def initializeTabs_upgraded [OF False c up]
          setupTabListeners_def tab_inv_def activateTab_Some(2,3) [OF cur up1])
qed

lemma tab_inv_unique:
  "tab_inv g \<Longrightarrow> t \<in> set (tabs g) \<Longrightarrow> u \<in> set (tabs g) \<Longrightarrow>
   activeAttr g t \<Longrightarrow> activeAttr g u \<Longrightarrow> t = u"
  unfolding tab_inv_def by (metis option.inject)

text \<open>
  X1. When a freshly constructed tab group is connected with all its panels already
  upgraded, then after any sequence of \<open>selectTab\<close>, \<open>nextTab\<close>, \<open>previousTab\<close>, trigger clicks
  and \<open>activate\<close>/\<open>deactivate\<close> calls on panels, at most one panel of the group is active.
\<close>

theorem tab_group_exclusive:
  "constructed g \<and> (\<forall>p \<in> set (panelEls g). upgraded g p)
   \<and> t \<in> set (tabs (tab_run ops (snd (connectedCallback g))))
   \<and> u \<in> set (tabs (tab_run ops (snd (connectedCallback g))))
   \<and> isActive t (tab_run ops (snd (connectedCallback g)))
   \<and> isActive u (tab_run ops (snd (connectedCallback g)))
   \<longrightarrow> t = u"
proof (intro impI)
  assume h: "constructed g \<and> (\<forall>p \<in> set (panelEls g). upgraded g p)
   \<and> t \<in> set (tabs (tab_run ops (snd (connectedCallback g))))
   \<and> u \<in> set (tabs (tab_run ops (snd (connectedCallback g))))
   \<and> isActive t (tab_run ops (snd (connectedCallback g)))
   \<and> isActive u (tab_run ops (snd (connectedCallback g)))"
  then have "tab_inv (snd (connectedCallback g))" by (intro tab_inv_connected) simp_all
  then have "tab_inv (tab_run ops (snd (connectedCallback g)))"
    unfolding tab_run_def by (rule tab_inv_fold)
  with h show "t = u" unfolding isActive_def by (blast dest: tab_inv_unique)
qed

theorem tab_group_exclusive_witness:
  "tabs (tab_run [NextTab] (snd (connectedCallback
      \<lparr>panelEls = [10, 11, 12], triggerEls = [20, 21, 22], upgraded = (\<lambda>_. True),
       activeAttr = (\<lambda>_. True), selectedAttr = (\<lambda>_. False), tabs = [], activeTab = None,
       listening = False\<rparr>)))
     = [10, 11, 12]
   \<and> \<not> (isActive 10 (tab_run [NextTab] (snd (connectedCallback
      \<lparr>panelEls = [10, 11, 12], triggerEls = [20, 21, 22], upgraded = (\<lambda>_. True),
       activeAttr = (\<lambda>_. True), selectedAttr = (\<lambda>_. False), tabs = [], activeTab = None,
       listening = False\<rparr>)))
        \<and> isActive 11 (tab_run [NextTab] (snd (connectedCallback
      \<lparr>panelEls = [10, 11, 12], triggerEls = [20, 21, 22], upgraded = (\<lambda>_. True),
       activeAttr = (\<lambda>_. True), selectedAttr = (\<lambda>_. False), tabs = [], activeTab = None,
       listening = False\<rparr>))))"
proof -
  define g0 where "g0 =
      \<lparr>panelEls = [10, 11, 12], triggerEls = [20, 21, 22], upgraded = (\<lambda>_. True),
       activeAttr = (\<lambda>_. True), selectedAttr = (\<lambda>_. False), tabs = [], activeTab = None,
       listening = False\<rparr>"
  define g where "g = tab_run [NextTab] (snd (connectedCallback g0))"
  have c: "constructed g0" and ups: "\<forall>p \<in> set (panelEls g0). upgraded g0 p"
    and ne: "panelEls g0 \<noteq> []" and n: "activeTab g0 = None"
    by (simp_all add: g0_def constructed_def)
  from ups ne have up: "upgraded g0 (hd (panelEls g0))" by simp
  have t: "tabs g = [10, 11, 12]"
    by (simp add: g_def tab_run_def nextTab_def connectedCallback_def
          initializeTabs_upgraded [OF ne n up] setupTabListeners_def) (simp add: g0_def)
  then have members: "10 \<in> set (tabs g)" "11 \<in> set (tabs g)" by simp_all
  have different: "(10::nat) \<noteq> 11" by simp
  have "constructed g0 \<and> (\<forall>p \<in> set (panelEls g0). upgraded g0 p)
      \<and> 10 \<in> set (tabs g) \<and> 11 \<in> set (tabs g) \<and> isActive 10 g \<and> isActive 11 g
      \<longrightarrow> (10::nat) = 11"
    unfolding g_def by (rule tab_group_exclusive)
  with c ups members different have "\<not> (isActive 10 g \<and> isActive 11 g)" by blast
  with t show ?thesis unfolding g_def g0_def by blast
qed

section \<open>Accordion group\<close>

declare toggleAccordion.simps [simp del] notifyExpanded.simps [simp del] collapse.simps [simp del]

lemma toggleAccordion_closing:
  "isExpanded s a \<Longrightarrow> toggleAccordion a s = s\<lparr>isExpanded := (isExpanded s)(a := False)\<rparr>"
  by (simp add: toggleAccordion.simps [of a s] Let_def)

lemma collapse_eq:
  "collapse a s =
     (if isExpanded s a
      then s\<lparr>isExpanded := (isExpanded s)(a := False),
             notifications := notifications s @ [CollapseCall a]\<rparr>
      else s\<lparr>notifications := notifications s @ [CollapseCall a]\<rparr>)"
  by (simp add: collapse.simps [of a s] Let_def toggleAccordion_closing)

lemma toggleAccordion_opening:
  "\<not> isExpanded s a \<Longrightarrow>
   toggleAccordion a s =
     (let s1 = s\<lparr>isExpanded := (isExpanded s)(a := True),
                   notifications := notifications s @ [ExpandedEvent a]\<rparr>
      in (case currentOpenAccordion s of
            None \<Rightarrow> s1
          | Some cur \<Rightarrow> if cur \<noteq> a then collapse cur s1 else s1)
         \<lparr>currentOpenAccordion := Some a\<rparr>)"
  by (simp add: toggleAccordion.simps [of a s] notifyExpanded.simps Let_def dispatchExpanded_def
        accordionExpandedListener_def split: option.splits)

text \<open>
  C8 (as amended). Closing never touches the group's record. When an expanded accordion
  closes, by a trigger click (\<open>toggleAccordion\<close>), by \<open>collapse()\<close> or by \<open>close()\<close>, only
  its own \<open>isExpanded\<close> changes: no event is dispatched and \<open>currentOpenAccordion\<close> keeps
  its value, also when it names the accordion that has just closed. The record is replaced
  only when an accordion expands.
\<close>

theorem close_keeps_record:
  "isExpanded s a \<longrightarrow>
     toggleAccordion a s = s\<lparr>isExpanded := (isExpanded s)(a := False)\<rparr>
     \<and> \<not> isExpanded (collapse a s) a
     \<and> currentOpenAccordion (collapse a s) = currentOpenAccordion s
     \<and> Accordion_close a s = s\<lparr>isExpanded := (isExpanded s)(a := False)\<rparr>"
  by (simp add: toggleAccordion_closing collapse_eq Accordion_close_def Accordion_toggle_def Let_def)

theorem close_keeps_record_witness:
  "isExpanded (click_run [Click 0] initial_group) 0
   \<and> currentOpenAccordion (click_run [Click 0] initial_group) = Some 0
   \<and> \<not> isExpanded (toggleAccordion 0 (click_run [Click 0] initial_group)) 0
   \<and> currentOpenAccordion (toggleAccordion 0 (click_run [Click 0] initial_group)) = Some 0
   \<and> currentOpenAccordion (collapse 0 (click_run [Click 0] initial_group)) = Some 0
   \<and> currentOpenAccordion (Accordion_close 0 (click_run [Click 0] initial_group)) = Some 0"
  using close_keeps_record [of "click_run [Click 0] initial_group" 0]
  by (simp add: click_run_def handleTriggerClick_def initial_group_def
        toggleAccordion_opening Let_def)

text \<open>
  C8 as stated fails: after a click that expands accordion 0 and a second click that closes
  it, the group still records accordion 0 as the open one although it is closed.
\<close>

theorem close_keeps_record_counterexample:
  "currentOpenAccordion (click_run [Click 0, Click 0] initial_group) = Some 0
   \<and> \<not> isExpanded (click_run [Click 0, Click 0] initial_group) 0"
  by (simp add: click_run_def handleTriggerClick_def initial_group_def
        toggleAccordion_opening toggleAccordion_closing Let_def)

text \<open>
  C9. Calling \<open>open()\<close> on an accordion that is already expanded changes nothing: the state
  is the same afterwards, so no \<open>accordion-expanded\<close> event is dispatched again, no sibling
  is collapsed, and the group's record is untouched.
\<close>

theorem open_idempotent:
  "isExpanded s m \<longrightarrow>
     Accordion_open m s = s
     \<and> notifications (Accordion_open m s) = notifications s
     \<and> isExpanded (Accordion_open m s) = isExpanded s
     \<and> currentOpenAccordion (Accordion_open m s) = currentOpenAccordion s"
  by (simp add: Accordion_open_def)

lemmas acc_defs = accordion_run_def Accordion_open_def Accordion_close_def Accordion_toggle_def
  Accordion_notifyExpanded_def dispatchExpanded_def accordionExpandedListener_def
  missingMethod_def initial_group_def Let_def

theorem open_idempotent_witness:
  "isExpanded (accordion_run [Open 0] initial_group) 0
   \<and> notifications (accordion_run [Open 0] initial_group) = [ExpandedEvent 0]
   \<and> Accordion_open 0 (accordion_run [Open 0] initial_group) = accordion_run [Open 0] initial_group
   \<and> notifications (Accordion_open 0 (accordion_run [Open 0] initial_group)) = [ExpandedEvent 0]"
  using open_idempotent [of "accordion_run [Open 0] initial_group" 0]
  by (simp add: acc_defs)

text \<open>
  C1 fails on the code for accordion groups. The group's listener calls \<open>collapse()\<close> on
  the recorded accordion, a method the \<open>Accordion\<close> class of
  \<open>src/ui/components/Accordion.ts\<close> does not have. Opening accordion 0 and then accordion 1
  leaves both expanded: the listener throws before it collapses accordion 0 and before it
  updates the record.
\<close>

theorem group_of_accordions_two_open:
  "isExpanded (accordion_run [Open 0, Open 1] initial_group) 0
   \<and> isExpanded (accordion_run [Open 0, Open 1] initial_group) 1
   \<and> currentOpenAccordion (accordion_run [Open 0, Open 1] initial_group) = Some 0
   \<and> notifications (accordion_run [Open 0, Open 1] initial_group) = [ExpandedEvent 0, ExpandedEvent 1]"
  by (simp add: acc_defs)

section \<open>Accordion group of \<open>part_004\<close> accordions: at most one expanded\<close>

lemma accordion_inv_unique:
  "accordion_inv s \<Longrightarrow> isExpanded s a \<Longrightarrow> isExpanded s b \<Longrightarrow> a = b"
  unfolding accordion_inv_def by (metis option.inject)

lemma accordion_inv_shrink:
  "accordion_inv s \<Longrightarrow> currentOpenAccordion s' = currentOpenAccordion s \<Longrightarrow>
   (\<And>b. isExpanded s' b \<Longrightarrow> isExpanded s b) \<Longrightarrow> accordion_inv s'"
  by (simp add: accordion_inv_def)

lemma accordion_inv_collapse: "accordion_inv s \<Longrightarrow> accordion_inv (collapse a s)"
  by (erule accordion_inv_shrink) (simp_all add: collapse_eq split: if_splits)

lemma toggleAccordion_opening_fields:
  assumes "\<not> isExpanded s a"
  shows "currentOpenAccordion (toggleAccordion a s) = Some a"
    and "isExpanded (toggleAccordion a s) b =
           (b = a \<or> (isExpanded s b \<and> currentOpenAccordion s \<noteq> Some b))"
proof -
  show "currentOpenAccordion (toggleAccordion a s) = Some a"
    using assms by (simp add: toggleAccordion_opening Let_def split: option.splits)
  show "isExpanded (toggleAccordion a s) b =
           (b = a \<or> (isExpanded s b \<and> currentOpenAccordion s \<noteq> Some b))"
  proof (cases "currentOpenAccordion s")
    case None
    with assms show ?thesis by (simp add: toggleAccordion_opening Let_def)
  next
    case (Some cur)
    with assms show ?thesis
      by (cases "cur = a"; cases "b = a"; cases "b = cur";
          simp add: toggleAccordion_opening collapse_eq Let_def)
  qed
qed

lemma accordion_inv_toggle: "accordion_inv s \<Longrightarrow> accordion_inv (toggleAccordion a s)"
proof (cases "isExpanded s a")
  case True
  assume "accordion_inv s"
  with True show ?thesis
    by (elim accordion_inv_shrink) (simp_all add: toggleAccordion_closing split: if_splits)
next
  case False
  assume "accordion_inv s"
  with False show ?thesis
    unfolding accordion_inv_def by (auto simp: toggleAccordion_opening_fields)
qed

lemma accordion_inv_step: "accordion_inv s \<Longrightarrow> accordion_inv (click_step op s)"
  by (cases op) (simp_all add: handleTriggerClick_def accordion_inv_toggle accordion_inv_collapse)

lemma accordion_inv_fold: "accordion_inv s \<Longrightarrow> accordion_inv (fold click_step ops s)"
  by (induction ops arbitrary: s) (simp_all add: accordion_inv_step)

text \<open>
  X2. With the accordion class of \<open>src/unnamed/part_004\<close>, which has \<open>collapse()\<close>, at most
  one accordion of a group is expanded after any sequence of trigger clicks and
  \<open>collapse()\<close> calls.
\<close>

theorem clicked_accordions_exclusive:
  "isExpanded (click_run ops initial_group) a \<and> isExpanded (click_run ops initial_group) b
   \<longrightarrow> a = b"
proof -
  have "accordion_inv initial_group" by (simp add: accordion_inv_def initial_group_def)
  then have "accordion_inv (click_run ops initial_group)"
    unfolding click_run_def by (rule accordion_inv_fold)
  then show ?thesis by (blast dest: accordion_inv_unique)
qed

theorem clicked_accordions_exclusive_witness:
  "isExpanded (click_run [Click 0, Click 1] initial_group) 1
   \<and> \<not> isExpanded (click_run [Click 0, Click 1] initial_group) 0
   \<and> currentOpenAccordion (click_run [Click 0, Click 1] initial_group) = Some 1"
  using clicked_accordions_exclusive [of "[Click 0, Click 1]" 0 1]
  by (simp add: click_run_def handleTriggerClick_def initial_group_def
        toggleAccordion_opening_fields)

end
